theory Spec2Isabelle
  imports Complex_Main
begin

section \<open>Data model of the Qingping client (src/qingping/client.ts)\<close>

text \<open>
  A sensor reading is a finite double, which is a real number: readings have type
  \<open>real\<close>, and comparing them is exact. The one arithmetic operation on readings, the
  product in the VOC read, is double multiplication and is modelled as such
  (\<open>round_double\<close> below). Times (\<open>Date.now()\<close>, milliseconds) and \<open>expires_in\<close>
  (seconds) are \<open>int\<close>. A thrown exception or a rejected promise is a value of type
  \<open>error\<close>.
\<close>

datatype error = Error string | TypeError string | HTTPError string

record OauthAccess =
  access_token :: string
  expires_in :: int
  scope :: string
  token_type :: string

text \<open>\<open>enum DeviceProductId { AirMonitor = 1201 }\<close>: a numeric TypeScript enum is an
  object with the forward and the reverse mapping, so \<open>Object.values\<close> of it lists the
  member's name and its number.\<close>

definition AirMonitor :: int where
  "AirMonitor = 1201"

datatype js_value = JsString string | JsNumber int

definition DeviceProductId_values :: "js_value list" where
  "DeviceProductId_values = [JsString ''AirMonitor'', JsNumber AirMonitor]"

record Product =
  product_id :: int
  product_name :: string
  en_name :: string

record Status =
  offline :: bool

record DeviceInfo =
  mac :: string
  product_of :: Product
  name :: string
  version :: string
  created_at :: int
  group_id :: int
  group_name :: string
  status :: Status

datatype DeviceDataKey = Timestamp | Battery | Temperature | Humidity | Tvoc | Co2 | Pm25

fun key_name :: "DeviceDataKey \<Rightarrow> string" where
  "key_name Timestamp = ''timestamp''"
| "key_name Battery = ''battery''"
| "key_name Temperature = ''temperature''"
| "key_name Humidity = ''humidity''"
| "key_name Tvoc = ''tvoc''"
| "key_name Co2 = ''co2''"
| "key_name Pm25 = ''pm25''"

text \<open>A reading is the object \<open>{ value: number }\<close>. \<open>DeviceData\<close> is declared as a
  total \<open>Record\<close>, but the code tests keys for presence (\<open>in\<close>, \<open>?.\<close>, \<open>!data.battery\<close>),
  so the model is a partial map.\<close>

record Reading =
  val :: real

type_synonym DeviceData = "DeviceDataKey \<rightharpoonup> Reading"

record Device =
  info :: DeviceInfo
  data :: DeviceData

section \<open>Capability reads (src/platform-accessory.ts)\<close>

subsection \<open>Configuration\<close>

record Config =
  appKey :: string
  appSecret :: string
  interval :: "int option"
  temperatureName :: "string option"
  humidityName :: "string option"
  co2Name :: "string option"
  aqiName :: "string option"
  tvocUnit :: "string option"

subsection \<open>onCharacteristicGetValue\<close>

text \<open>
  \<^verbatim>\<open>const value = this.data[field]?.value;
  if (!value) { return callback(new Error(`Undefined characteristic value for ${field}`)); }
  callback(null, value);\<close>
  The callback's error-or-value convention is the sum type. A number is falsy exactly
  when it is zero (a parsed JSON number is never NaN).
\<close>

definition onCharacteristicGetValue :: "DeviceData \<Rightarrow> DeviceDataKey \<Rightarrow> error + real" where
  "onCharacteristicGetValue d field =
     (case d field of
        None \<Rightarrow> Inl (Error (''Undefined characteristic value for '' @ key_name field))
      | Some r \<Rightarrow>
          if val r = 0
          then Inl (Error (''Undefined characteristic value for '' @ key_name field))
          else Inr (val r))"

subsection \<open>Battery status (first revision of the accessory, getBatteryService)\<close>

datatype StatusLowBattery = BATTERY_LEVEL_NORMAL | BATTERY_LEVEL_LOW

text \<open>The handler reads \<open>this.data.battery.value\<close>; \<open>this.data\<close> is looked up again
  at every read, so a device snapshot without the key makes the property access throw.\<close>

definition batteryGet :: "DeviceData \<Rightarrow> error + StatusLowBattery" where
  "batteryGet d =
     (case d Battery of
        None \<Rightarrow> Inl (TypeError ''battery'')
      | Some r \<Rightarrow>
          (let batteryPercentage = val r in
             if batteryPercentage > 20 then Inr BATTERY_LEVEL_NORMAL
             else Inr BATTERY_LEVEL_LOW))"

subsection \<open>Air quality (getAirQuality)\<close>

datatype AirQuality = UNKNOWN | EXCELLENT | GOOD | FAIR | INFERIOR | POOR

type_synonym AirQualityLevelCondition = "(DeviceDataKey \<times> real) list"

datatype AirQualityLevel =
  Under AirQualityLevelCondition AirQuality
| Over AirQualityLevelCondition AirQuality

fun airQuality :: "AirQualityLevel \<Rightarrow> AirQuality" where
  "airQuality (Under c q) = q"
| "airQuality (Over c q) = q"

definition levels :: "AirQualityLevel list" where
  "levels =
     [Under [(Pm25, 12), (Tvoc, 65), (Co2, 1000)] EXCELLENT,
      Under [(Pm25, 35), (Tvoc, 220), (Co2, 1250)] GOOD,
      Under [(Pm25, 55), (Tvoc, 660), (Co2, 1500)] FAIR,
      Under [(Pm25, 150), (Tvoc, 2000), (Co2, 2000)] INFERIOR,
      Over [(Pm25, 150), (Tvoc, 2000), (Co2, 2000)] POOR]"

text \<open>The inner loop over \<open>Object.entries(condition)\<close> pushes one boolean per entry:
  \<open>dataKey in this.data && this.data[dataKey].value < targetValue\<close> (or the same with the greater-than sign).\<close>

fun under_matches :: "DeviceData \<Rightarrow> AirQualityLevelCondition \<Rightarrow> bool list" where
  "under_matches d [] = []"
| "under_matches d ((dataKey, targetValue) # rest) =
     (case d dataKey of None \<Rightarrow> False | Some r \<Rightarrow> val r < targetValue) # under_matches d rest"

fun over_matches :: "DeviceData \<Rightarrow> AirQualityLevelCondition \<Rightarrow> bool list" where
  "over_matches d [] = []"
| "over_matches d ((dataKey, targetValue) # rest) =
     (case d dataKey of None \<Rightarrow> False | Some r \<Rightarrow> val r > targetValue) # over_matches d rest"

fun matches :: "DeviceData \<Rightarrow> AirQualityLevel \<Rightarrow> bool list" where
  "matches d (Under c q) = under_matches d c"
| "matches d (Over c q) = over_matches d c"

text \<open>The outer loop: the first level whose matches are all true sets the result and
  breaks; otherwise the initial \<open>UNKNOWN\<close> stands.\<close>

fun levels_loop :: "DeviceData \<Rightarrow> AirQualityLevel list \<Rightarrow> AirQuality \<Rightarrow> AirQuality" where
  "levels_loop d [] aq = aq"
| "levels_loop d (level # rest) aq =
     (if list_all (\<lambda>x. x) (matches d level) then airQuality level
      else levels_loop d rest aq)"

definition getAirQuality :: "DeviceData \<Rightarrow> AirQuality" where
  "getAirQuality d = levels_loop d levels UNKNOWN"

subsection \<open>The classifier as the specification words it\<close>

text \<open>A rule names either an under or an over condition, a partial map from reading
  kind to threshold (here its list of entries), and a result. It matches iff every kind
  named is present in the readings and compares strictly against its threshold. The first
  matching rule of the table wins; with no match the result is \<open>UNKNOWN\<close>.\<close>

datatype comparison = Less_than | Greater_than

record Rule =
  comparison_of :: comparison
  thresholds :: "(DeviceDataKey \<times> real) list"
  resultLevel :: AirQuality

definition spec_rules :: "Rule list" where
  "spec_rules =
     [\<lparr>comparison_of = Less_than, thresholds = [(Pm25, 12), (Tvoc, 65), (Co2, 1000)],
        resultLevel = EXCELLENT\<rparr>,
      \<lparr>comparison_of = Less_than, thresholds = [(Pm25, 35), (Tvoc, 220), (Co2, 1250)],
        resultLevel = GOOD\<rparr>,
      \<lparr>comparison_of = Less_than, thresholds = [(Pm25, 55), (Tvoc, 660), (Co2, 1500)],
        resultLevel = FAIR\<rparr>,
      \<lparr>comparison_of = Less_than, thresholds = [(Pm25, 150), (Tvoc, 2000), (Co2, 2000)],
        resultLevel = INFERIOR\<rparr>,
      \<lparr>comparison_of = Greater_than, thresholds = [(Pm25, 150), (Tvoc, 2000), (Co2, 2000)],
        resultLevel = POOR\<rparr>]"

definition spec_rule_matches :: "(DeviceDataKey \<rightharpoonup> real) \<Rightarrow> Rule \<Rightarrow> bool" where
  "spec_rule_matches readings rule =
     list_all
       (\<lambda>(kind, threshold).
          case readings kind of
            None \<Rightarrow> False
          | Some v \<Rightarrow>
              (case comparison_of rule of
                 Less_than \<Rightarrow> v < threshold
               | Greater_than \<Rightarrow> v > threshold))
       (thresholds rule)"

definition spec_classify :: "(DeviceDataKey \<rightharpoonup> real) \<Rightarrow> AirQuality" where
  "spec_classify readings =
     (case find (spec_rule_matches readings) spec_rules of
        None \<Rightarrow> UNKNOWN
      | Some rule \<Rightarrow> resultLevel rule)"

definition readings_of :: "DeviceData \<Rightarrow> (DeviceDataKey \<rightharpoonup> real)" where
  "readings_of d = (\<lambda>kind. map_option val (d kind))"

definition sample :: "real \<Rightarrow> real \<Rightarrow> real \<Rightarrow> DeviceData" where
  "sample p t c = [Pm25 \<mapsto> \<lparr>val = p\<rparr>, Tvoc \<mapsto> \<lparr>val = t\<rparr>, Co2 \<mapsto> \<lparr>val = c\<rparr>]"

subsection \<open>VOC density and carbon dioxide detection\<close>

text \<open>
  \<^verbatim>\<open>let value = this.data.tvoc.value;
  switch (this.config.tvocUnit) { case 'ppb': value = this.data.tvoc.value * 3.19; break; }
  callback(null, value);\<close>
\<close>

text \<open>The product is computed in IEEE-754 binary64 with the default rounding: the exact
  product of the two doubles, rounded to the nearest double, ties to the even significand.
  \<open>binade\<close> is the exponent of the binade a number lies in, not below that of the
  subnormals; \<open>ulp\<close> is the spacing of the doubles there (53 significant bits); a result
  of magnitude \<open>2 ^ 1024\<close> or more is an infinity. The sign of a zero is not kept.\<close>

datatype js_number = Finite real | PosInfinity | NegInfinity

definition round_half_even :: "real \<Rightarrow> int" where
  "round_half_even q =
     (let f = \<lfloor>q\<rfloor> in
        if q - of_int f < 1 / 2 then f
        else if q - of_int f > 1 / 2 then f + 1
        else if even f then f else f + 1)"

definition binade :: "real \<Rightarrow> int" where
  "binade x = max \<lfloor>log 2 \<bar>x\<bar>\<rfloor> (- 1022)"

definition ulp :: "real \<Rightarrow> real" where
  "ulp x = 2 powr real_of_int (binade x - 52)"

definition round_double :: "real \<Rightarrow> js_number" where
  "round_double x =
     (if x = 0 then Finite 0
      else (let r = real_of_int (round_half_even (x / ulp x)) * ulp x in
              if r \<ge> 2 powr 1024 then PosInfinity
              else if r \<le> - (2 powr 1024) then NegInfinity
              else Finite r))"

text \<open>The double that the literal \<open>3.19\<close> denotes (lemma \<open>double_3_19_literal\<close> below).\<close>

definition double_3_19 :: real where
  "double_3_19 = 7183241405655941 / 2 ^ 51"

definition js_times :: "real \<Rightarrow> real \<Rightarrow> js_number" where
  "js_times a b = round_double (a * b)"

definition getVOCDensity :: "Config \<Rightarrow> DeviceData \<Rightarrow> error + js_number" where
  "getVOCDensity cfg d =
     (case d Tvoc of
        None \<Rightarrow> Inl (TypeError ''tvoc'')
      | Some r \<Rightarrow>
          Inr (if tvocUnit cfg = Some ''ppb'' then js_times (val r) double_3_19
               else Finite (val r)))"

datatype CarbonDioxideDetected = CO2_LEVELS_NORMAL | CO2_LEVELS_ABNORMAL

definition getCarbonDioxideDetected :: "DeviceData \<Rightarrow> error + CarbonDioxideDetected" where
  "getCarbonDioxideDetected d =
     (case d Co2 of
        None \<Rightarrow> Inl (TypeError ''co2'')
      | Some r \<Rightarrow>
          Inr (if val r > 2000 then CO2_LEVELS_ABNORMAL else CO2_LEVELS_NORMAL))"

section \<open>The client: token and device list (src/qingping/client.ts)\<close>

text \<open>\<open>Array.isArray(response.body.devices)\<close> separates an array of devices from every
  other value the field may hold (absent, null, a number, a string, an object).\<close>

datatype devices_json = DevicesArray "Device list" | NotAnArray

record GetDevicesResponse =
  total_devices :: int
  devices_field :: devices_json

record Client =
  client_appKey :: string
  client_appSecret :: string
  client_interval :: int
  accessUpdatedAt :: int
  access :: "OauthAccess option"
  devices :: "Device list"

definition DEFAULT_INTERVAL :: int where
  "DEFAULT_INTERVAL = 5000"

definition new_Client :: "string \<Rightarrow> string \<Rightarrow> Client" where
  "new_Client k s =
     \<lparr>client_appKey = k, client_appSecret = s, client_interval = DEFAULT_INTERVAL,
      accessUpdatedAt = - 1, access = None, devices = []\<rparr>"

text \<open>The outside world of one call: what \<open>Date.now()\<close> returns at each of its three
  uses and what the two endpoints answer. A request that fails (network error, non-2xx
  status, unparsable body) is a rejected promise, \<open>Inl\<close>.\<close>

record Env =
  now :: int
  token_reply :: "error + OauthAccess"
  token_received :: int
  devices_timestamp :: int
  devices_reply :: "error + GetDevicesResponse"

datatype request = PostToken string string | GetDevices int

text \<open>\<open>get refreshBefore()\<close>: null without a credential, else
  \<open>Date.now() + this.access.expires_in * 990\<close>. No code reads it.\<close>

definition refreshBefore :: "int \<Rightarrow> Client \<Rightarrow> int option" where
  "refreshBefore date_now c =
     (case access c of None \<Rightarrow> None | Some a \<Rightarrow> Some (date_now + expires_in a * 990))"

definition refreshToken :: "Env \<Rightarrow> Client \<Rightarrow> (error + OauthAccess) \<times> Client \<times> request list" where
  "refreshToken e c =
     (case token_reply e of
        Inl err \<Rightarrow> (Inl err, c, [PostToken (client_appKey c) (client_appSecret c)])
      | Inr body \<Rightarrow>
          (Inr body,
           c\<lparr>accessUpdatedAt := token_received e, access := Some body\<rparr>,
           [PostToken (client_appKey c) (client_appSecret c)]))"

text \<open>The test of \<open>updateDevices\<close>:
  \<open>!this.access || this.accessUpdatedAt + this.access.expires_in * 1000 > Date.now()\<close>.\<close>

definition refresh_condition :: "Env \<Rightarrow> Client \<Rightarrow> bool" where
  "refresh_condition e c =
     (case access c of
        None \<Rightarrow> True
      | Some a \<Rightarrow> accessUpdatedAt c + expires_in a * 1000 > now e)"

definition fetchDevices :: "Env \<Rightarrow> Client \<Rightarrow> request list \<Rightarrow> (error + unit) \<times> Client \<times> request list" where
  "fetchDevices e c sent =
     (case devices_reply e of
        Inl err \<Rightarrow> (Inl err, c, sent @ [GetDevices (devices_timestamp e)])
      | Inr body \<Rightarrow>
          (case devices_field body of
             DevicesArray ds \<Rightarrow> (Inr (), c\<lparr>devices := ds\<rparr>, sent @ [GetDevices (devices_timestamp e)])
           | NotAnArray \<Rightarrow> (Inr (), c, sent @ [GetDevices (devices_timestamp e)])))"

definition updateDevices :: "Env \<Rightarrow> Client \<Rightarrow> (error + unit) \<times> Client \<times> request list" where
  "updateDevices e c =
     (if refresh_condition e c
      then (case refreshToken e c of
              (Inl err, c1, sent) \<Rightarrow> (Inl err, c1, sent)
            | (Inr a, c1, sent) \<Rightarrow> fetchDevices e c1 sent)
      else fetchDevices e c [])"

definition token_requests :: "request list \<Rightarrow> nat" where
  "token_requests sent = length (filter (\<lambda>r. case r of PostToken k s \<Rightarrow> True | GetDevices t \<Rightarrow> False) sent)"

text \<open>The deadline the specification derives, in milliseconds:
  issue time plus 99 percent of the lifetime.\<close>

definition refreshDeadline :: "Client \<Rightarrow> OauthAccess \<Rightarrow> int" where
  "refreshDeadline c a = accessUpdatedAt c + expires_in a * 990"

section \<open>The platform: accessories and reconciliation (platform.ts)\<close>

datatype Service =
  AccessoryInformation | BatteryService | TemperatureSensor | HumiditySensor
| AirQualitySensor | CarbonDioxideSensor

record PlatformAccessory =
  displayName :: string
  UUID :: string
  context_device :: Device
  services :: "Service list"

text \<open>\<open>accessory.getService(S) ?? accessory.addService(S)\<close>.\<close>

definition ensureService :: "Service \<Rightarrow> PlatformAccessory \<Rightarrow> PlatformAccessory" where
  "ensureService s a = (if s \<in> set (services a) then a else a\<lparr>services := services a @ [s]\<rparr>)"

text \<open>The constructor of \<open>QingpingAirMonitorAccessory\<close>, as far as it changes the
  accessory: the battery service only when the snapshot has a battery reading, the
  other four always.\<close>

definition QingpingAirMonitorAccessory :: "PlatformAccessory \<Rightarrow> PlatformAccessory" where
  "QingpingAirMonitorAccessory a =
     (let a1 = (case data (context_device a) Battery of
                  None \<Rightarrow> a
                | Some r \<Rightarrow> ensureService BatteryService a);
          a2 = ensureService TemperatureSensor a1;
          a3 = ensureService HumiditySensor a2;
          a4 = ensureService AirQualitySensor a3
      in ensureService CarbonDioxideSensor a4)"

text \<open>\<open>new this.api.platformAccessory(name, uuid)\<close> followed by
  \<open>accessory.context.device = device\<close>.\<close>

definition platformAccessory :: "string \<Rightarrow> string \<Rightarrow> Device \<Rightarrow> PlatformAccessory" where
  "platformAccessory n u d =
     \<lparr>displayName = n, UUID = u, context_device = d, services = [AccessoryInformation]\<rparr>"

datatype log_level = LogInfo | LogWarn | LogDebug | LogError

datatype log_arg = Str string | Num int | Err error

text \<open>What a call does to the outside, in order: log lines, HTTP requests, and the two
  calls into the host. \<open>SetContextDevice\<close> records the assignment
  \<open>existingAccessory.context.device = device\<close> with the accessory's UUID.\<close>

datatype effect =
  Log log_level "log_arg list"
| Http request
| SetContextDevice string
| RegisterPlatformAccessories "string list"
| UnregisterPlatformAccessories "string list"

text \<open>The platform object. \<open>accessories\<close> is the array the platform tracks;
  \<open>api_accessories\<close> is the host's own list of registered platform accessories, by UUID:
  \<open>registerPlatformAccessories\<close> appends to it, \<open>unregisterPlatformAccessories\<close> deletes
  from it. \<open>timer\<close> is the period of the interval, once set.\<close>

record Platform =
  config :: Config
  client :: "Client option"
  accessories :: "PlatformAccessory list"
  api_accessories :: "string list"
  timer :: "int option"

fun error_toString :: "error \<Rightarrow> string" where
  "error_toString (Error m) = ''Error: '' @ m"
| "error_toString (TypeError m) = ''TypeError: '' @ m"
| "error_toString (HTTPError m) = ''HTTPError: '' @ m"

definition initialize :: "Env \<Rightarrow> Platform \<Rightarrow> Platform \<times> effect list" where
  "initialize e p =
     (let cfg = config p;
          fx0 = [Log LogInfo [Str ''Using the following appKey: '', Str (appKey cfg),
                              Str '', and appSecret: '', Str (take 6 (appSecret cfg)), Str ''...'']];
          c = new_Client (appKey cfg) (appSecret cfg)
      in case updateDevices e c of
           (Inl err, c1, sent) \<Rightarrow>
             (p\<lparr>client := Some c1\<rparr>,
              fx0 @ map Http sent @
              [Log LogError [Str ''Error initializing platform'', Str (error_toString err)],
               Log LogDebug [Err err]])
         | (Inr u, c1, sent) \<Rightarrow>
             (p\<lparr>client := Some c1,
                timer := Some (case interval cfg of
                                 None \<Rightarrow> 2000
                               | Some i \<Rightarrow> if i = 0 then 2000 else i)\<rparr>,
              fx0 @ map Http sent @ [Log LogInfo [Str ''Initialized'']]))"

definition configureAccessory :: "PlatformAccessory \<Rightarrow> Platform \<Rightarrow> Platform \<times> effect list" where
  "configureAccessory a p =
     (if product_id (product_of (info (context_device a))) = AirMonitor
      then (p\<lparr>accessories := accessories p @ [QingpingAirMonitorAccessory a]\<rparr>,
            [Log LogInfo [Str ''Loading accessory from cache:'', Str (displayName a)]])
      else (p,
            [Log LogInfo [Str ''Loading accessory from cache:'', Str (displayName a)],
             Log LogWarn [Str ''Unsupported accessory:'', Str (displayName a)]]))"

text \<open>\<open>Object.values(QingpingDeviceProductId).includes(device?.info?.product?.id)\<close>.\<close>

definition isAvailable :: "Device \<Rightarrow> bool" where
  "isAvailable d = (JsNumber (product_id (product_of (info d))) \<in> set DeviceProductId_values)"

text \<open>\<open>find\<close> returns the first accessory with the UUID; the assignment to its context
  changes that element of the array in place.\<close>

fun replaceFirst :: "('a \<Rightarrow> bool) \<Rightarrow> ('a \<Rightarrow> 'a) \<Rightarrow> 'a list \<Rightarrow> 'a list" where
  "replaceFirst P f [] = []"
| "replaceFirst P f (x # xs) = (if P x then f x # xs else x # replaceFirst P f xs)"

text \<open>The state of the first loop: \<open>this.accessories\<close>, \<open>discoveredAccessories\<close>, the
  host's list, and the effects so far.\<close>

type_synonym loop_state = "PlatformAccessory list \<times> string list \<times> string list \<times> effect list"

definition deviceStep :: "(string \<Rightarrow> string) \<Rightarrow> Device \<Rightarrow> loop_state \<Rightarrow> loop_state" where
  "deviceStep generate device st =
     (case st of (accs, discovered, host, fx) \<Rightarrow>
        (let uuid = generate (mac (info device));
             discovered1 = discovered @ [uuid]
         in case find (\<lambda>accessory. UUID accessory = uuid) accs of
              Some existingAccessory \<Rightarrow>
                (replaceFirst (\<lambda>accessory. UUID accessory = uuid)
                   (\<lambda>accessory. accessory\<lparr>context_device := device\<rparr>) accs,
                 discovered1, host,
                 fx @ [Log LogInfo [Str ''Existing accessory:'', Str (name (info device))],
                       SetContextDevice uuid])
            | None \<Rightarrow>
                (let accessory = platformAccessory (name (info device)) uuid device;
                     fx1 = fx @ [Log LogInfo [Str ''Adding new accessory:'', Str (name (info device))]]
                 in if product_id (product_of (info device)) = AirMonitor
                    then (accs @ [QingpingAirMonitorAccessory accessory],
                          discovered1, host @ [uuid],
                          fx1 @ [RegisterPlatformAccessories [uuid],
                                 Log LogInfo [Str ''Registered a new device: '',
                                              Str (name (info device))]])
                    else (accs, discovered1, host,
                          fx1 @ [Log LogWarn [Str ''Unsupported device:'',
                                              Num (product_id (product_of (info device))),
                                              Str (en_name (product_of (info device)))]]))))"

fun devices_loop :: "(string \<Rightarrow> string) \<Rightarrow> Device list \<Rightarrow> loop_state \<Rightarrow> loop_state" where
  "devices_loop generate [] st = st"
| "devices_loop generate (device # rest) st = devices_loop generate rest (deviceStep generate device st)"

text \<open>The second loop runs over \<open>this.accessories\<close> as the first loop left it and changes
  only the host's list.\<close>

fun accessories_loop ::
  "string list \<Rightarrow> PlatformAccessory list \<Rightarrow> string list \<times> effect list \<Rightarrow> string list \<times> effect list" where
  "accessories_loop discovered [] st = st"
| "accessories_loop discovered (accessory # rest) (host, fx) =
     accessories_loop discovered rest
       (if \<not> list_ex (\<lambda>uuid. UUID accessory = uuid) discovered
        then (removeAll (UUID accessory) host,
              fx @ [Log LogInfo [Str ''Unregistering unknown accessory:'', Str (displayName accessory)],
                    UnregisterPlatformAccessories [UUID accessory]])
        else (host, fx))"

text \<open>Everything after the \<open>try\<close> block of \<open>discoverDevices\<close>, on the client's cached
  device list.\<close>

definition reconcile ::
  "(string \<Rightarrow> string) \<Rightarrow> Device list \<Rightarrow> PlatformAccessory list \<times> string list \<Rightarrow>
   (PlatformAccessory list \<times> string list) \<times> effect list" where
  "reconcile generate cached st =
     (case st of (accs, host) \<Rightarrow>
        (let availableDevices = filter isAvailable cached;
             fx0 = [Log LogInfo [Str ''Available devices: '', Num (int (length availableDevices))]]
         in case devices_loop generate availableDevices (accs, [], host, fx0) of
              (accs1, discoveredAccessories, host1, fx1) \<Rightarrow>
                (case accessories_loop discoveredAccessories accs1 (host1, fx1) of
                   (host2, fx2) \<Rightarrow> ((accs1, host2), fx2))))"

definition discoverDevices ::
  "(string \<Rightarrow> string) \<Rightarrow> Env \<Rightarrow> Platform \<Rightarrow> (error + unit) \<times> Platform \<times> effect list" where
  "discoverDevices generate e p =
     (case client p of
        None \<Rightarrow>
          (Inr (), p,
           [Log LogInfo [Str ''Start discovering devices''],
            Log LogInfo [Str ''Client is not ready; skipping discoverDevices()'']])
      | Some c \<Rightarrow>
          (case updateDevices e c of
             (r, c1, sent) \<Rightarrow>
               (let fx_try = map Http sent @
                      (case r of
                         Inr u \<Rightarrow> [Log LogInfo [Str ''Device list updated'']]
                       | Inl err \<Rightarrow> [Log LogDebug [Err err]])
                in case reconcile generate (devices c1) (accessories p, api_accessories p) of
                     ((accs, host), fx) \<Rightarrow>
                       (Inr (),
                        p\<lparr>client := Some c1, accessories := accs, api_accessories := host\<rparr>,
                        [Log LogInfo [Str ''Start discovering devices'']] @ fx_try @ fx))))"

text \<open>The callback of the interval that \<open>initialize\<close> sets:
  \<open>() => this.client?.updateDevices()\<close>. It returns the promise of \<open>updateDevices\<close>;
  nothing awaits it and nothing catches it, and no log line is written. The result
  \<open>Inl\<close> is that promise rejected, which the runtime reports as an unhandled rejection.\<close>

definition tick :: "Env \<Rightarrow> Platform \<Rightarrow> (error + unit) \<times> Platform \<times> effect list" where
  "tick e p =
     (case client p of
        None \<Rightarrow> (Inr (), p, [])
      | Some c \<Rightarrow>
          (case updateDevices e c of
             (r, c1, sent) \<Rightarrow> (r, p\<lparr>client := Some c1\<rparr>, map Http sent)))"

text \<open>The reconciliation result read off the effects of one call.\<close>

fun added :: "effect list \<Rightarrow> string list" where
  "added [] = []"
| "added (RegisterPlatformAccessories us # fx) = us @ added fx"
| "added (x # fx) = added fx"

fun removed :: "effect list \<Rightarrow> string list" where
  "removed [] = []"
| "removed (UnregisterPlatformAccessories us # fx) = us @ removed fx"
| "removed (x # fx) = removed fx"

fun updated :: "effect list \<Rightarrow> string list" where
  "updated [] = []"
| "updated (SetContextDevice u # fx) = u # updated fx"
| "updated (x # fx) = updated fx"

section \<open>Auxiliary notions and sample values\<close>

text \<open>A level of the source's table as a rule of the specification's table.\<close>

fun rule_of :: "AirQualityLevel \<Rightarrow> Rule" where
  "rule_of (Under c q) = \<lparr>comparison_of = Less_than, thresholds = c, resultLevel = q\<rparr>"
| "rule_of (Over c q) = \<lparr>comparison_of = Greater_than, thresholds = c, resultLevel = q\<rparr>"

definition cached_access :: OauthAccess where
  "cached_access =
     \<lparr>access_token = ''old'', expires_in = 7200, scope = ''device_full_access'',
      token_type = ''bearer''\<rparr>"

definition fresh_access :: OauthAccess where
  "fresh_access =
     \<lparr>access_token = ''new'', expires_in = 7200, scope = ''device_full_access'',
      token_type = ''bearer''\<rparr>"

definition air_monitor :: "string \<Rightarrow> Device" where
  "air_monitor m =
     \<lparr>info = \<lparr>mac = m,
              product_of = \<lparr>product_id = AirMonitor, product_name = ''Air Monitor'',
                            en_name = ''Qingping Air Monitor''\<rparr>,
              name = m, version = ''1.0'', created_at = 0, group_id = 0, group_name = ''home'',
              status = \<lparr>offline = False\<rparr>\<rparr>,
      data = sample 10 50 900\<rparr>"

text \<open>A client holding a credential issued at time 0 with a lifetime of 7200 seconds,
  and a device list cached by an earlier poll.\<close>

definition token_client :: Client where
  "token_client =
     (new_Client ''key'' ''secret'')
       \<lparr>accessUpdatedAt := 0, access := Some cached_access, devices := [air_monitor ''A'']\<rparr>"

text \<open>Both endpoints answer: the token endpoint with a fresh credential, the device
  endpoint with a body whose \<open>devices\<close> field is the given value.\<close>

definition env_reply :: "int \<Rightarrow> devices_json \<Rightarrow> Env" where
  "env_reply t dv =
     \<lparr>now = t, token_reply = Inr fresh_access, token_received = t + 1, devices_timestamp = t + 2,
      devices_reply = Inr \<lparr>total_devices = 1, devices_field = dv\<rparr>\<rparr>"

text \<open>Both endpoints are unreachable.\<close>

definition env_down :: "int \<Rightarrow> Env" where
  "env_down t =
     \<lparr>now = t, token_reply = Inl (HTTPError ''ECONNREFUSED''), token_received = t + 1,
      devices_timestamp = t + 2, devices_reply = Inl (HTTPError ''ECONNREFUSED'')\<rparr>"


subsection \<open>Closed forms of the two loops\<close>

text \<open>The UUID of a device, the in-place context update of the first loop, and the
  accessory the first loop creates for a device seen for the first time.\<close>

definition key :: "(string \<Rightarrow> string) \<Rightarrow> Device \<Rightarrow> string" where
  "key g d = g (mac (info d))"

definition setContext :: "(string \<Rightarrow> string) \<Rightarrow> Device \<Rightarrow> PlatformAccessory list \<Rightarrow> PlatformAccessory list" where
  "setContext g d accs =
     replaceFirst (\<lambda>accessory. UUID accessory = key g d) (\<lambda>accessory. accessory\<lparr>context_device := d\<rparr>) accs"

definition fresh :: "(string \<Rightarrow> string) \<Rightarrow> Device \<Rightarrow> PlatformAccessory" where
  "fresh g d = QingpingAirMonitorAccessory (platformAccessory (name (info d)) (key g d) d)"

text \<open>For a list of supported devices: \<open>tracked\<close> is \<open>this.accessories\<close> after the
  first loop and \<open>emitted\<close> the effects of that loop; \<open>dropped\<close> is the effects of the
  second loop and \<open>kept\<close> the test an entry of the host's list passes to survive it.
  Lemmas \<open>devices_loop_closed\<close> and \<open>accessories_loop_closed\<close> below prove that the
  loops compute exactly these.\<close>

fun tracked :: "(string \<Rightarrow> string) \<Rightarrow> Device list \<Rightarrow> PlatformAccessory list \<Rightarrow> PlatformAccessory list" where
  "tracked g [] accs = accs"
| "tracked g (d # ds) accs =
     tracked g ds (if key g d \<in> UUID ` set accs then setContext g d accs else accs @ [fresh g d])"

fun emitted :: "(string \<Rightarrow> string) \<Rightarrow> Device list \<Rightarrow> PlatformAccessory list \<Rightarrow> effect list" where
  "emitted g [] accs = []"
| "emitted g (d # ds) accs =
     (if key g d \<in> UUID ` set accs
      then [Log LogInfo [Str ''Existing accessory:'', Str (name (info d))],
            SetContextDevice (key g d)] @ emitted g ds (setContext g d accs)
      else [Log LogInfo [Str ''Adding new accessory:'', Str (name (info d))],
            RegisterPlatformAccessories [key g d],
            Log LogInfo [Str ''Registered a new device: '', Str (name (info d))]]
           @ emitted g ds (accs @ [fresh g d]))"

fun dropped :: "string list \<Rightarrow> PlatformAccessory list \<Rightarrow> effect list" where
  "dropped disc [] = []"
| "dropped disc (a # as) =
     (if UUID a \<in> set disc then []
      else [Log LogInfo [Str ''Unregistering unknown accessory:'', Str (displayName a)],
            UnregisterPlatformAccessories [UUID a]]) @ dropped disc as"

definition kept :: "string list \<Rightarrow> PlatformAccessory list \<Rightarrow> string \<Rightarrow> bool" where
  "kept disc as u = (u \<in> set disc \<or> u \<notin> UUID ` set as)"

subsection \<open>A sample installation\<close>

text \<open>\<open>gen\<close> stands for the host's \<open>uuid.generate\<close>. \<open>restore ms\<close> is the platform after
  the host has handed back its cached accessories, one per address in \<open>ms\<close>, through
  \<open>configureAccessory\<close>; \<open>started e ms\<close> is that platform after \<open>initialize\<close> ran in
  the environment \<open>e\<close>. \<open>poll ms\<close> is an environment in which both endpoints answer and
  the device list holds one air monitor per address in \<open>ms\<close>.\<close>

definition gen :: "string \<Rightarrow> string" where
  "gen m = ''uuid-'' @ m"

definition cfg0 :: Config where
  "cfg0 = \<lparr>appKey = ''key'', appSecret = ''secret'', interval = None, temperatureName = None,
           humidityName = None, co2Name = None, aqiName = None, tvocUnit = None\<rparr>"

definition restored :: "string \<Rightarrow> PlatformAccessory" where
  "restored m = QingpingAirMonitorAccessory (platformAccessory m (gen m) (air_monitor m))"

definition restore :: "string list \<Rightarrow> Platform" where
  "restore ms =
     foldl (\<lambda>p m. fst (configureAccessory (platformAccessory m (gen m) (air_monitor m)) p))
       \<lparr>config = cfg0, client = None, accessories = [], api_accessories = map gen ms,
        timer = None\<rparr>
       ms"

definition started :: "Env \<Rightarrow> string list \<Rightarrow> Platform" where
  "started e ms = fst (initialize e (restore ms))"

definition poll :: "string list \<Rightarrow> Env" where
  "poll ms = env_reply 1000 (DevicesArray (map air_monitor ms))"

text \<open>The client after a successful poll at time 1000, and a platform in operation.\<close>

definition online_client :: "Device list \<Rightarrow> Client" where
  "online_client ds =
     (new_Client ''key'' ''secret'')
       \<lparr>accessUpdatedAt := 1001, access := Some fresh_access, devices := ds\<rparr>"

definition running :: "Client \<Rightarrow> PlatformAccessory list \<Rightarrow> string list \<Rightarrow> int option \<Rightarrow> Platform" where
  "running c accs host t =
     \<lparr>config = cfg0, client = Some c, accessories = accs, api_accessories = host, timer = t\<rparr>"

section \<open>Properties of the capability reads\<close>

lemma under_matches_all:
  "list_all (\<lambda>x. x) (under_matches d c) =
   list_all (\<lambda>(kind, threshold).
      case readings_of d kind of None \<Rightarrow> False | Some v \<Rightarrow> v < threshold) c"
  by (induction c) (auto simp: readings_of_def split: option.splits)

lemma over_matches_all:
  "list_all (\<lambda>x. x) (over_matches d c) =
   list_all (\<lambda>(kind, threshold).
      case readings_of d kind of None \<Rightarrow> False | Some v \<Rightarrow> v > threshold) c"
  by (induction c) (auto simp: readings_of_def split: option.splits)

lemma matches_rule_of:
  "list_all (\<lambda>x. x) (matches d level) = spec_rule_matches (readings_of d) (rule_of level)"
  by (cases level)
    (simp_all add: spec_rule_matches_def under_matches_all over_matches_all
      cong: option.case_cong)

lemma levels_loop_find:
  "levels_loop d ls aq =
   (case find (spec_rule_matches (readings_of d)) (map rule_of ls) of
      None \<Rightarrow> aq | Some rule \<Rightarrow> resultLevel rule)"
proof (induction ls)
  case Nil
  then show ?case by simp
next
  case (Cons l ls)
  have "airQuality l = resultLevel (rule_of l)" by (cases l) simp_all
  with Cons show ?case by (simp add: matches_rule_of)
qed

lemma spec_rules_levels: "spec_rules = map rule_of levels"
  by (simp add: spec_rules_def levels_def)

lemma getAirQuality_refines: "getAirQuality d = spec_classify (readings_of d)"
  by (simp add: getAirQuality_def spec_classify_def levels_loop_find spec_rules_levels)

text \<open>
  Claim C4. \<open>getAirQuality\<close> computes the classifier of the specification: the five rules
  in the order Excellent, Good, Fair, Inferior, Poor with the stated thresholds, a rule
  matching iff every kind it names is present and compares strictly, the first match
  winning and \<open>UNKNOWN\<close> otherwise. In particular pm25 10, tvoc 50, co2 900 is Excellent;
  pm25 35 with the same tvoc and co2 is not Good (it is Fair); 200, 2500, 2500 is Poor;
  no readings at all is Unknown; and a reading set without co2 is Unknown although its
  pm25 and tvoc qualify for Excellent.
\<close>

theorem getAirQuality_classify:
  "getAirQuality d = spec_classify (readings_of d)
   \<and> getAirQuality (sample 10 50 900) = EXCELLENT
   \<and> getAirQuality (sample 35 50 900) \<noteq> GOOD
   \<and> getAirQuality (sample 35 50 900) = FAIR
   \<and> getAirQuality (sample 200 2500 2500) = POOR
   \<and> getAirQuality Map.empty = UNKNOWN
   \<and> getAirQuality [Pm25 \<mapsto> \<lparr>val = 1\<rparr>, Tvoc \<mapsto> \<lparr>val = 1\<rparr>] = UNKNOWN"
proof (intro conjI)
  show "getAirQuality d = spec_classify (readings_of d)"
    by (rule getAirQuality_refines)
  show "getAirQuality (sample 10 50 900) = EXCELLENT"
    by (simp add: getAirQuality_def levels_def sample_def)
  show fair: "getAirQuality (sample 35 50 900) = FAIR"
    by (simp add: getAirQuality_def levels_def sample_def)
  then show "getAirQuality (sample 35 50 900) \<noteq> GOOD"
    by simp
  show "getAirQuality (sample 200 2500 2500) = POOR"
    by (simp add: getAirQuality_def levels_def sample_def)
  show "getAirQuality Map.empty = UNKNOWN"
    by (simp add: getAirQuality_def levels_def)
  show "getAirQuality [Pm25 \<mapsto> \<lparr>val = 1\<rparr>, Tvoc \<mapsto> \<lparr>val = 1\<rparr>] = UNKNOWN"
    by (simp add: getAirQuality_def levels_def)
qed

text \<open>
  Claim C7. For every readings map and every kind, the value read fails exactly when
  the kind is absent or its value is zero (the only falsy number); a reading of exactly 0
  is reported as the error, and every other present reading is returned as it is.
\<close>

theorem onCharacteristicGetValue_missing:
  "((\<exists>err. onCharacteristicGetValue d field = Inl err) =
      (d field = None \<or> (\<exists>r. d field = Some r \<and> val r = 0)))
   \<and> onCharacteristicGetValue (d(field \<mapsto> \<lparr>val = 0\<rparr>)) field =
       Inl (Error (''Undefined characteristic value for '' @ key_name field))
   \<and> (\<forall>r. d field = Some r \<and> val r \<noteq> 0 \<longrightarrow> onCharacteristicGetValue d field = Inr (val r))"
  by (auto simp: onCharacteristicGetValue_def split: option.splits)

theorem onCharacteristicGetValue_missing_witness:
  "onCharacteristicGetValue [Co2 \<mapsto> \<lparr>val = 400\<rparr>] Co2 = Inr 400
   \<and> onCharacteristicGetValue [Co2 \<mapsto> \<lparr>val = 0\<rparr>] Co2 =
       Inl (Error ''Undefined characteristic value for co2'')
   \<and> (\<exists>err. onCharacteristicGetValue [Co2 \<mapsto> \<lparr>val = 400\<rparr>] Pm25 = Inl err)"
  using onCharacteristicGetValue_missing [of "[Co2 \<mapsto> \<lparr>val = 400\<rparr>]" Co2]
    onCharacteristicGetValue_missing [of "Map.empty" Co2]
    onCharacteristicGetValue_missing [of "[Co2 \<mapsto> \<lparr>val = 400\<rparr>]" Pm25]
  by simp

subsection \<open>Double rounding\<close>

lemma round_half_even_near: "\<bar>real_of_int (round_half_even q) - q\<bar> \<le> 1 / 2"
  unfolding round_half_even_def Let_def by (auto split: if_splits)

lemma round_half_even_eq:
  assumes "real_of_int n - 1 / 2 < q" and "q < real_of_int n + 1 / 2"
  shows "round_half_even q = n"
proof -
  have "\<lfloor>q\<rfloor> = n \<or> \<lfloor>q\<rfloor> = n - 1" using assms by linarith
  then show ?thesis
  proof
    assume f: "\<lfloor>q\<rfloor> = n"
    then have "q - of_int \<lfloor>q\<rfloor> < 1 / 2" using assms by simp
    then show ?thesis by (simp add: round_half_even_def f)
  next
    assume f: "\<lfloor>q\<rfloor> = n - 1"
    then have "q - of_int \<lfloor>q\<rfloor> > 1 / 2" using assms by simp
    then show ?thesis by (simp add: round_half_even_def f)
  qed
qed

lemma binade_eq:
  assumes "2 powr real_of_int k \<le> \<bar>x\<bar>" and "\<bar>x\<bar> < 2 powr real_of_int (k + 1)"
    and "- 1022 \<le> k"
  shows "binade x = k"
proof -
  have pos: "0 < \<bar>x\<bar>" using assms(1) by (smt (verit) powr_gt_zero)
  have "\<lfloor>log 2 \<bar>x\<bar>\<rfloor> = k"
    using assms(1,2) floor_log_eq_powr_iff [of "\<bar>x\<bar>" 2 k] pos by simp
  then show ?thesis using assms(3) by (simp add: binade_def)
qed

lemma round_double_normal:
  assumes lo: "2 powr real_of_int k \<le> \<bar>x\<bar>" and hi: "\<bar>x\<bar> < 2 powr real_of_int (k + 1)"
    and k: "- 1022 \<le> k"
    and n1: "real_of_int n - 1 / 2 < x / 2 powr real_of_int (k - 52)"
    and n2: "x / 2 powr real_of_int (k - 52) < real_of_int n + 1 / 2"
    and fin: "\<bar>real_of_int n * 2 powr real_of_int (k - 52)\<bar> < 2 powr 1024"
  shows "round_double x = Finite (real_of_int n * 2 powr real_of_int (k - 52))"
proof -
  have x: "x \<noteq> 0" using lo by (smt (verit) powr_gt_zero)
  have u: "ulp x = 2 powr real_of_int (k - 52)"
    by (simp only: ulp_def binade_eq [OF lo hi k])
  have r: "round_half_even (x / 2 powr real_of_int (k - 52)) = n"
    by (rule round_half_even_eq [OF n1 n2])
  have a: "\<not> real_of_int n * 2 powr real_of_int (k - 52) \<ge> 2 powr 1024"
    and b: "\<not> real_of_int n * 2 powr real_of_int (k - 52) \<le> - (2 powr 1024)"
    using fin by linarith+
  show ?thesis
    unfolding round_double_def Let_def u r
    by (simp only: x a b if_False)
qed

lemma double_3_19_literal: "round_double 3.19 = Finite double_3_19"
proof -
  have "round_double 3.19 =
      Finite (real_of_int 7183241405655941 * 2 powr real_of_int (1 - 52))"
    by (rule round_double_normal) (simp_all add: powr_neg_numeral)
  then show ?thesis by (simp add: double_3_19_def powr_neg_numeral)
qed

lemma js_times_100: "js_times 100 double_3_19 = Finite 319"
proof -
  have "round_double (100 * double_3_19) =
      Finite (real_of_int 5611907348168704 * 2 powr real_of_int (8 - 52))"
    by (rule round_double_normal) (simp_all add: powr_neg_numeral double_3_19_def)
  then show ?thesis by (simp add: js_times_def powr_neg_numeral)
qed

lemma js_times_11: "js_times 11 double_3_19 = Finite (4938478466388459 / 2 ^ 47)"
proof -
  have "round_double (11 * double_3_19) =
      Finite (real_of_int 4938478466388459 * 2 powr real_of_int (5 - 52))"
    by (rule round_double_normal) (simp_all add: powr_neg_numeral double_3_19_def)
  then show ?thesis by (simp add: js_times_def powr_neg_numeral)
qed

lemma not_exact_11: "(4938478466388459 / 2 ^ 47 :: real) \<noteq> 11 * 3.19"
  by simp

lemma round_double_error:
  assumes lo: "2 powr (- 1022) \<le> \<bar>x\<bar>" and hi: "\<bar>x\<bar> < 2 powr 1023"
  shows "\<exists>r. round_double x = Finite r \<and> \<bar>r - x\<bar> \<le> \<bar>x\<bar> / 2 ^ 53"
proof -
  have pos: "0 < \<bar>x\<bar>" using lo by (smt (verit) powr_gt_zero)
  then have x: "x \<noteq> 0" by auto
  define k where "k = \<lfloor>log 2 \<bar>x\<bar>\<rfloor>"
  have kb: "2 powr real_of_int k \<le> \<bar>x\<bar>" "\<bar>x\<bar> < 2 powr real_of_int (k + 1)"
    using floor_log_eq_powr_iff [of "\<bar>x\<bar>" 2 k] pos by (simp_all add: k_def)
  have "2 powr (- 1022) < (2::real) powr real_of_int (k + 1)"
    using lo kb(2) by linarith
  then have "- 1022 < real_of_int (k + 1)" by simp
  then have klo: "- 1022 \<le> k" by linarith
  have "(2::real) powr real_of_int k < 2 powr 1023"
    using hi kb(1) by linarith
  then have "real_of_int k < 1023"
    by (rule powr_less_cancel_iff [THEN iffD1, rotated]) simp
  then have khi: "k \<le> 1022" by linarith
  define u :: real where "u = 2 powr real_of_int (k - 52)"
  have upos: "0 < u" by (simp add: u_def)
  have ulp: "ulp x = u"
    by (simp only: ulp_def u_def binade_eq [OF kb klo])
  define n where "n = round_half_even (x / u)"
  define r where "r = real_of_int n * u"
  have "\<bar>real_of_int n - x / u\<bar> \<le> 1 / 2"
    unfolding n_def by (rule round_half_even_near)
  then have "\<bar>real_of_int n - x / u\<bar> * u \<le> 1 / 2 * u"
    using upos by (intro mult_right_mono) simp_all
  moreover have "\<bar>real_of_int n - x / u\<bar> * u = \<bar>r - x\<bar>"
  proof -
    have "\<bar>real_of_int n - x / u\<bar> * u = \<bar>(real_of_int n - x / u) * u\<bar>"
      using upos by (simp add: abs_mult)
    also have "(real_of_int n - x / u) * u = r - x"
      using upos by (simp add: r_def field_simps)
    finally show ?thesis .
  qed
  ultimately have near: "\<bar>r - x\<bar> \<le> u / 2" by simp
  have uk: "u = 2 powr real_of_int k / 2 ^ 52"
    by (simp add: u_def powr_diff)
  have "u / 2 = 2 powr real_of_int k / 2 ^ 53" by (simp add: uk)
  also have "\<dots> \<le> \<bar>x\<bar> / 2 ^ 53"
    using kb(1) by (intro divide_right_mono) simp_all
  finally have half: "u / 2 \<le> \<bar>x\<bar> / 2 ^ 53" .
  have err: "\<bar>r - x\<bar> \<le> \<bar>x\<bar> / 2 ^ 53" using near half by linarith
  have "\<bar>r\<bar> \<le> \<bar>x\<bar> + \<bar>x\<bar> / 2 ^ 53" using err by linarith
  also have "\<dots> < 2 powr 1023 + 2 powr 1023 / 2 ^ 53"
    using hi by (intro add_strict_mono divide_strict_right_mono) simp_all
  also have "\<dots> \<le> 2 powr 1024"
  proof -
    have "(2::real) powr 1024 = 2 * 2 powr 1023"
      using powr_add [of "2::real" 1 1023] by simp
    moreover have "(2::real) powr 1023 / 2 ^ 53 \<le> 2 powr 1023"
      by (simp add: divide_le_eq)
    ultimately show ?thesis by linarith
  qed
  finally have fin: "\<bar>r\<bar> < 2 powr 1024" .
  have a: "\<not> r \<ge> 2 powr 1024" and b: "\<not> r \<le> - (2 powr 1024)"
    using fin by linarith+
  have "round_double x = Finite r"
    unfolding round_double_def Let_def ulp n_def [symmetric] r_def [symmetric]
    by (simp only: x a b if_False)
  with err show ?thesis by blast
qed

lemma double_3_19_error: "\<bar>double_3_19 - 3.19\<bar> = 3 / 25 / 2 ^ 51" "0 < double_3_19" "double_3_19 < 3.19"
  by (simp_all add: double_3_19_def)

lemma js_times_error:
  assumes lo: "2 powr (- 1022) \<le> \<bar>v * double_3_19\<bar>" and hi: "\<bar>v * double_3_19\<bar> < 2 powr 1023"
  shows "\<exists>r. js_times v double_3_19 = Finite r \<and> \<bar>r - v * 3.19\<bar> \<le> \<bar>v * 3.19\<bar> / 2 ^ 52"
proof -
  from round_double_error [OF lo hi] obtain r where
    r: "round_double (v * double_3_19) = Finite r"
    and e: "\<bar>r - v * double_3_19\<bar> \<le> \<bar>v * double_3_19\<bar> / 2 ^ 53"
    by blast
  have "\<bar>v * double_3_19\<bar> = \<bar>v\<bar> * double_3_19"
    using double_3_19_error(2) by (simp add: abs_mult)
  also have "\<dots> \<le> \<bar>v\<bar> * 3.19"
    using double_3_19_error(3) by (intro mult_left_mono) simp_all
  finally have m: "\<bar>v * double_3_19\<bar> \<le> \<bar>v\<bar> * 3.19" .
  have "v * double_3_19 - v * 3.19 = v * (double_3_19 - 3.19)"
    by (simp add: algebra_simps)
  then have "\<bar>v * double_3_19 - v * 3.19\<bar> = \<bar>v\<bar> * \<bar>double_3_19 - 3.19\<bar>"
    by (simp only: abs_mult)
  then have d: "\<bar>v * double_3_19 - v * 3.19\<bar> = \<bar>v\<bar> * (3 / 25 / 2 ^ 51)"
    by (simp only: double_3_19_error(1))
  have tri: "\<bar>a - c\<bar> \<le> \<bar>a - b\<bar> + \<bar>b - c\<bar>" for a b c :: real
    by linarith
  have "\<bar>r - v * 3.19\<bar> \<le> \<bar>r - v * double_3_19\<bar> + \<bar>v * double_3_19 - v * 3.19\<bar>"
    by (rule tri)
  also have "\<dots> \<le> \<bar>v\<bar> * 3.19 / 2 ^ 53 + \<bar>v\<bar> * (3 / 25 / 2 ^ 51)"
    using e m d by (simp add: divide_right_mono order_trans)
  also have "\<dots> \<le> \<bar>v\<bar> * 3.19 / 2 ^ 52"
    by (simp add: field_simps)
  also have "\<dots> = \<bar>v * 3.19\<bar> / 2 ^ 52"
    by (simp add: abs_mult)
  finally show ?thesis using r by (auto simp: js_times_def)
qed

text \<open>
  Claim C8, amended. For every raw tvoc value \<open>v\<close>: with \<open>tvocUnit\<close> set to ppb the
  resolved VOC density is the double product of \<open>v\<close> and the double nearest 3.19, which
  is exactly 319 for raw 100 and, whenever the product lies in the range of the normal
  doubles, differs from \<open>v * 3.19\<close> by at most the fraction \<open>2 ^ -52\<close> of it; with any
  other setting, or none, it is \<open>v\<close> unchanged.
\<close>

theorem getVOCDensity_conversion:
  "getVOCDensity (cfg\<lparr>tvocUnit := u\<rparr>) (d(Tvoc \<mapsto> \<lparr>val = v\<rparr>)) =
     Inr (if u = Some ''ppb'' then js_times v double_3_19 else Finite v)
   \<and> round_double 3.19 = Finite double_3_19
   \<and> getVOCDensity (cfg\<lparr>tvocUnit := Some ''ppb''\<rparr>) (d(Tvoc \<mapsto> \<lparr>val = 100\<rparr>)) = Inr (Finite 319)
   \<and> (2 powr (- 1022) \<le> \<bar>v * double_3_19\<bar> \<and> \<bar>v * double_3_19\<bar> < 2 powr 1023 \<longrightarrow>
        (\<exists>r. getVOCDensity (cfg\<lparr>tvocUnit := Some ''ppb''\<rparr>) (d(Tvoc \<mapsto> \<lparr>val = v\<rparr>)) = Inr (Finite r)
             \<and> \<bar>r - v * 3.19\<bar> \<le> \<bar>v * 3.19\<bar> / 2 ^ 52))"
proof (intro conjI impI)
  show "getVOCDensity (cfg\<lparr>tvocUnit := u\<rparr>) (d(Tvoc \<mapsto> \<lparr>val = v\<rparr>)) =
     Inr (if u = Some ''ppb'' then js_times v double_3_19 else Finite v)"
    by (simp add: getVOCDensity_def)
  show "round_double 3.19 = Finite double_3_19"
    by (rule double_3_19_literal)
  show "getVOCDensity (cfg\<lparr>tvocUnit := Some ''ppb''\<rparr>) (d(Tvoc \<mapsto> \<lparr>val = 100\<rparr>)) = Inr (Finite 319)"
    by (simp add: getVOCDensity_def js_times_100)
next
  assume "2 powr (- 1022) \<le> \<bar>v * double_3_19\<bar> \<and> \<bar>v * double_3_19\<bar> < 2 powr 1023"
  then have "\<exists>r. js_times v double_3_19 = Finite r \<and> \<bar>r - v * 3.19\<bar> \<le> \<bar>v * 3.19\<bar> / 2 ^ 52"
    using js_times_error [of v] by blast
  then show "\<exists>r. getVOCDensity (cfg\<lparr>tvocUnit := Some ''ppb''\<rparr>) (d(Tvoc \<mapsto> \<lparr>val = v\<rparr>)) =
                 Inr (Finite r) \<and> \<bar>r - v * 3.19\<bar> \<le> \<bar>v * 3.19\<bar> / 2 ^ 52"
    by (simp add: getVOCDensity_def)
qed

theorem getVOCDensity_conversion_witness:
  "(2 powr (- 1022) \<le> \<bar>11 * double_3_19\<bar> \<and> \<bar>11 * double_3_19\<bar> < 2 powr 1023)
   \<and> (\<exists>r. getVOCDensity (cfg0\<lparr>tvocUnit := Some ''ppb''\<rparr>) [Tvoc \<mapsto> \<lparr>val = 11\<rparr>] = Inr (Finite r)
          \<and> \<bar>r - 11 * 3.19\<bar> \<le> \<bar>11 * 3.19\<bar> / 2 ^ 52)
   \<and> getVOCDensity (cfg0\<lparr>tvocUnit := None\<rparr>) [Tvoc \<mapsto> \<lparr>val = 11\<rparr>] = Inr (Finite 11)"
proof -
  have range: "2 powr (- 1022) \<le> \<bar>11 * double_3_19\<bar> \<and> \<bar>11 * double_3_19\<bar> < 2 powr 1023"
    by (simp add: double_3_19_def powr_neg_numeral)
  note th = getVOCDensity_conversion
    [where cfg = cfg0 and u = "Some ''ppb''" and d = Map.empty and v = 11]
  note off = getVOCDensity_conversion
    [where cfg = cfg0 and u = None and d = Map.empty and v = 11, THEN conjunct1]
  have "\<exists>r. getVOCDensity (cfg0\<lparr>tvocUnit := Some ''ppb''\<rparr>) [Tvoc \<mapsto> \<lparr>val = 11\<rparr>] = Inr (Finite r)
          \<and> \<bar>r - 11 * 3.19\<bar> \<le> \<bar>11 * 3.19\<bar> / 2 ^ 52"
    by (rule th [THEN conjunct2, THEN conjunct2, THEN conjunct2, THEN mp, OF range])
  moreover have "getVOCDensity (cfg0\<lparr>tvocUnit := None\<rparr>) [Tvoc \<mapsto> \<lparr>val = 11\<rparr>] = Inr (Finite 11)"
    using off by simp
  ultimately show ?thesis using range by blast
qed

theorem getVOCDensity_not_exact:
  "getVOCDensity (cfg0\<lparr>tvocUnit := Some ''ppb''\<rparr>) [Tvoc \<mapsto> \<lparr>val = 11\<rparr>] =
     Inr (Finite (4938478466388459 / 2 ^ 47))
   \<and> (4938478466388459 / 2 ^ 47 :: real) \<noteq> 11 * 3.19"
  by (simp add: getVOCDensity_def js_times_11)

text \<open>
  Claim C9. For every battery reading \<open>b\<close> the battery read of the first revision
  returns Low when \<open>b \<le> 20\<close> and Normal when \<open>b > 20\<close>; exactly 20 is Low.
\<close>

theorem batteryGet_threshold:
  "batteryGet (d(Battery \<mapsto> \<lparr>val = b\<rparr>)) =
     Inr (if b \<le> 20 then BATTERY_LEVEL_LOW else BATTERY_LEVEL_NORMAL)
   \<and> batteryGet (d(Battery \<mapsto> \<lparr>val = 20\<rparr>)) = Inr BATTERY_LEVEL_LOW"
  by (simp add: batteryGet_def)

text \<open>
  Claim C10. For every co2 reading \<open>c\<close> the carbon-dioxide-detected read reports
  abnormal levels exactly when \<open>c > 2000\<close> and normal levels otherwise; exactly 2000 is
  normal.
\<close>

theorem getCarbonDioxideDetected_threshold:
  "getCarbonDioxideDetected (d(Co2 \<mapsto> \<lparr>val = c\<rparr>)) =
     Inr (if c > 2000 then CO2_LEVELS_ABNORMAL else CO2_LEVELS_NORMAL)
   \<and> getCarbonDioxideDetected (d(Co2 \<mapsto> \<lparr>val = 2000\<rparr>)) = Inr CO2_LEVELS_NORMAL"
  by (simp add: getCarbonDioxideDetected_def)

section \<open>Properties of the client\<close>

lemma token_requests_updateDevices:
  "token_requests (snd (snd (updateDevices e c))) = (if refresh_condition e c then 1 else 0)"
  by (simp add: updateDevices_def refreshToken_def fetchDevices_def token_requests_def
      split: sum.splits devices_json.splits)

lemma updateDevices_failed:
  "fst (updateDevices e c) = Inl err \<Longrightarrow> devices (fst (snd (updateDevices e c))) = devices c"
  by (auto simp: updateDevices_def refreshToken_def fetchDevices_def
      split: sum.splits devices_json.splits if_splits)

text \<open>
  Claim C1 says that a call before the refresh deadline (issue time plus 99 percent of
  the lifetime) uses the cached credential and sends no token request, and that a call at
  or after the deadline refreshes once. The code does the opposite. The client below got
  its credential at time 0 with a lifetime of 7200 s, so the deadline is 7128000 ms.
  At time 1000, before the deadline, \<open>updateDevices\<close> sends one token request and
  replaces the credential; at time 8000000, after the deadline and after the expiry, it
  sends none and keeps the expired credential.
\<close>

theorem updateDevices_refresh_inverted:
  "now (env_reply 1000 (DevicesArray [])) < refreshDeadline token_client cached_access
   \<and> token_requests (snd (snd (updateDevices (env_reply 1000 (DevicesArray [])) token_client))) = 1
   \<and> access (fst (snd (updateDevices (env_reply 1000 (DevicesArray [])) token_client))) =
       Some fresh_access
   \<and> refreshDeadline token_client cached_access \<le> now (env_reply 8000000 (DevicesArray []))
   \<and> token_requests (snd (snd (updateDevices (env_reply 8000000 (DevicesArray [])) token_client))) = 0
   \<and> access (fst (snd (updateDevices (env_reply 8000000 (DevicesArray [])) token_client))) =
       Some cached_access"
  by (simp add: updateDevices_def refreshToken_def fetchDevices_def token_requests_def
      refresh_condition_def refreshDeadline_def env_reply_def token_client_def new_Client_def
      cached_access_def fresh_access_def)

text \<open>
  Claim C2. For every prior state of the client, non-empty caches included, and every
  parsed response body: when the call completes, the cached device list is the body's
  \<open>devices\<close> field if that field is an array (possibly empty), and is the list cached
  before the call if it is anything else.
\<close>

theorem updateDevices_replaces_cache:
  assumes "fst (updateDevices e c) = Inr ()" and "devices_reply e = Inr body"
  shows "devices (fst (snd (updateDevices e c))) =
           (case devices_field body of DevicesArray ds \<Rightarrow> ds | NotAnArray \<Rightarrow> devices c)"
  using assms
  by (auto simp: updateDevices_def refreshToken_def fetchDevices_def
      split: sum.splits devices_json.splits if_splits)

theorem updateDevices_replaces_cache_witness:
  "devices token_client = [air_monitor ''A'']
   \<and> devices (fst (snd (updateDevices (env_reply 1000 (DevicesArray [air_monitor ''B''])) token_client)))
       = [air_monitor ''B'']
   \<and> devices (fst (snd (updateDevices (env_reply 1000 (DevicesArray [])) token_client))) = []
   \<and> devices (fst (snd (updateDevices (env_reply 1000 NotAnArray) token_client)))
       = [air_monitor ''A'']"
proof -
  have ok: "fst (updateDevices (env_reply 1000 dv) token_client) = Inr ()" for dv
    by (simp add: updateDevices_def refreshToken_def fetchDevices_def refresh_condition_def
        env_reply_def token_client_def new_Client_def cached_access_def
        split: devices_json.splits)
  have reply: "devices_reply (env_reply 1000 dv) = Inr \<lparr>total_devices = 1, devices_field = dv\<rparr>" for dv
    by (simp add: env_reply_def)
  have "devices token_client = [air_monitor ''A'']"
    by (simp add: token_client_def)
  then show ?thesis
    using updateDevices_replaces_cache [OF ok reply, of "DevicesArray [air_monitor ''B'']"]
      updateDevices_replaces_cache [OF ok reply, of "DevicesArray []"]
      updateDevices_replaces_cache [OF ok reply, of NotAnArray]
    by simp
qed

section \<open>Properties of the reconciliation\<close>

lemma isAvailable_iff: "isAvailable d = (product_id (product_of (info d)) = AirMonitor)"
  by (simp add: isAvailable_def DeviceProductId_values_def)

lemma UUID_ensureService [simp]: "UUID (ensureService s a) = UUID a"
  by (simp add: ensureService_def)

lemma context_ensureService [simp]: "context_device (ensureService s a) = context_device a"
  by (simp add: ensureService_def)

lemma UUID_fresh [simp]: "UUID (fresh g d) = key g d"
  by (simp add: fresh_def QingpingAirMonitorAccessory_def platformAccessory_def Let_def split: option.splits)

lemma context_fresh [simp]: "context_device (fresh g d) = d"
  by (simp add: fresh_def QingpingAirMonitorAccessory_def platformAccessory_def Let_def split: option.splits)

lemma find_UUID_None: "(find (\<lambda>a. UUID a = u) accs = None) = (u \<notin> UUID ` set accs)"
  by (auto simp: find_None_iff)

lemma deviceStep_found:
  "key g d \<in> UUID ` set accs \<Longrightarrow>
   deviceStep g d (accs, disc, host, fx) =
     (setContext g d accs, disc @ [key g d], host,
      fx @ [Log LogInfo [Str ''Existing accessory:'', Str (name (info d))], SetContextDevice (key g d)])"
  using find_UUID_None [of "key g d" accs]
  by (auto simp: deviceStep_def Let_def setContext_def key_def split: option.splits)

lemma deviceStep_new:
  "key g d \<notin> UUID ` set accs \<Longrightarrow> isAvailable d \<Longrightarrow>
   deviceStep g d (accs, disc, host, fx) =
     (accs @ [fresh g d], disc @ [key g d], host @ [key g d],
      fx @ [Log LogInfo [Str ''Adding new accessory:'', Str (name (info d))],
            RegisterPlatformAccessories [key g d],
            Log LogInfo [Str ''Registered a new device: '', Str (name (info d))]])"
  using find_UUID_None [of "key g d" accs]
  by (auto simp: deviceStep_def Let_def fresh_def key_def isAvailable_iff split: option.splits)

lemma map_UUID_setContext [simp]: "map UUID (setContext g d accs) = map UUID accs"
  unfolding setContext_def by (induction accs) auto

lemma UUID_set_setContext [simp]: "UUID ` set (setContext g d accs) = UUID ` set accs"
  using map_UUID_setContext [of g d accs] by (metis list.set_map)

lemma added_append [simp]: "added (xs @ ys) = added xs @ added ys"
  by (induction xs rule: added.induct) auto
lemma removed_append [simp]: "removed (xs @ ys) = removed xs @ removed ys"
  by (induction xs rule: removed.induct) auto
lemma updated_append [simp]: "updated (xs @ ys) = updated xs @ updated ys"
  by (induction xs rule: updated.induct) auto



lemma devices_loop_closed:
  "\<forall>d\<in>set ds. isAvailable d \<Longrightarrow>
   devices_loop g ds (accs, disc, host, fx) =
     (tracked g ds accs, disc @ map (key g) ds, host @ added (emitted g ds accs),
      fx @ emitted g ds accs)"
proof (induction ds arbitrary: accs disc host fx)
  case Nil
  show ?case by simp
next
  case (Cons d ds)
  then have av: "isAvailable d" and rest: "\<forall>d\<in>set ds. isAvailable d" by simp_all
  show ?case
  proof (cases "key g d \<in> UUID ` set accs")
    case True
    then show ?thesis
      by (simp add: deviceStep_found Cons.IH [OF rest])
  next
    case False
    then show ?thesis
      by (simp add: deviceStep_new [OF False av] Cons.IH [OF rest])
  qed
qed

lemma map_UUID_tracked:
  "map UUID (tracked g ds accs) = map UUID accs @ added (emitted g ds accs)"
  by (induction ds arbitrary: accs) simp_all

lemma removed_emitted: "removed (emitted g ds accs) = []"
  by (induction ds arbitrary: accs) simp_all

lemma set_added_emitted:
  "set (added (emitted g ds accs)) = key g ` set ds - UUID ` set accs"
proof (induction ds arbitrary: accs)
  case Nil
  show ?case by simp
next
  case (Cons d ds)
  show ?case
  proof (cases "key g d \<in> UUID ` set accs")
    case True
    then show ?thesis by (auto simp: Cons.IH)
  next
    case False
    then show ?thesis by (auto simp: Cons.IH)
  qed
qed

lemma distinct_added_emitted: "distinct (added (emitted g ds accs))"
  by (induction ds arbitrary: accs) (simp_all add: set_added_emitted)

lemma updated_emitted_subset: "set (updated (emitted g ds accs)) \<subseteq> key g ` set ds"
proof (induction ds arbitrary: accs)
  case Nil
  show ?case by simp
next
  case (Cons d ds)
  have "set (updated (emitted g ds (setContext g d accs))) \<subseteq> key g ` set ds"
    and "set (updated (emitted g ds (accs @ [fresh g d]))) \<subseteq> key g ` set ds"
    by (rule Cons.IH)+
  then show ?case by (cases "key g d \<in> UUID ` set accs") auto
qed

lemma updated_emitted_known:
  "key g ` set ds \<inter> UUID ` set accs \<subseteq> set (updated (emitted g ds accs))"
proof (induction ds arbitrary: accs)
  case Nil
  show ?case by simp
next
  case (Cons d ds)
  have a: "key g ` set ds \<inter> UUID ` set (setContext g d accs)
             \<subseteq> set (updated (emitted g ds (setContext g d accs)))"
    and b: "key g ` set ds \<inter> UUID ` set (accs @ [fresh g d])
             \<subseteq> set (updated (emitted g ds (accs @ [fresh g d])))"
    by (rule Cons.IH)+
  show ?case
  proof (cases "key g d \<in> UUID ` set accs")
    case True
    with a show ?thesis by auto
  next
    case False
    with b show ?thesis by auto
  qed
qed

lemma updated_emitted_distinct:
  "distinct (map (key g) ds) \<Longrightarrow>
   set (updated (emitted g ds accs)) = key g ` set ds \<inter> UUID ` set accs"
proof (induction ds arbitrary: accs)
  case Nil
  show ?case by simp
next
  case (Cons d ds)
  then have fr: "key g d \<notin> key g ` set ds" and di: "distinct (map (key g) ds)" by simp_all
  show ?case
  proof (cases "key g d \<in> UUID ` set accs")
    case True
    then show ?thesis using fr by (auto simp: Cons.IH [OF di])
  next
    case False
    then show ?thesis using fr by (auto simp: Cons.IH [OF di])
  qed
qed


lemma accessories_loop_closed:
  "accessories_loop disc as (host, fx) = (filter (kept disc as) host, fx @ dropped disc as)"
proof (induction as arbitrary: host fx)
  case Nil
  show ?case by (simp add: kept_def)
next
  case (Cons a as)
  show ?case
  proof (cases "UUID a \<in> set disc")
    case True
    have "filter (kept disc (a # as)) host = filter (kept disc as) host"
      using True by (intro filter_cong) (auto simp: kept_def)
    with True show ?thesis by (simp add: list_ex_iff Cons.IH)
  next
    case False
    have "filter (kept disc as) (removeAll (UUID a) host) = filter (kept disc (a # as)) host"
      using False unfolding removeAll_filter_not_eq filter_filter
      by (intro filter_cong) (auto simp: kept_def)
    with False show ?thesis by (simp add: list_ex_iff Cons.IH)
  qed
qed

lemma added_dropped [simp]: "added (dropped disc as) = []"
  by (induction as) simp_all

lemma updated_dropped [simp]: "updated (dropped disc as) = []"
  by (induction as) simp_all

lemma removed_dropped: "removed (dropped disc as) = filter (\<lambda>u. u \<notin> set disc) (map UUID as)"
  by (induction as) simp_all

lemma reconcile_closed:
  "reconcile g cached (accs, host) =
     ((tracked g (filter isAvailable cached) accs,
       filter (kept (map (key g) (filter isAvailable cached)) (tracked g (filter isAvailable cached) accs))
         (host @ added (emitted g (filter isAvailable cached) accs))),
      [Log LogInfo [Str ''Available devices: '', Num (int (length (filter isAvailable cached)))]]
      @ emitted g (filter isAvailable cached) accs
      @ dropped (map (key g) (filter isAvailable cached)) (tracked g (filter isAvailable cached) accs))"
proof -
  have av: "\<forall>d\<in>set (filter isAvailable cached). isAvailable d" by simp
  show ?thesis
    unfolding reconcile_def
    by (simp add: Let_def devices_loop_closed [OF av] accessories_loop_closed)
qed


lemma set_UUID_tracked:
  "UUID ` set (tracked g ds accs) = UUID ` set accs \<union> key g ` set ds"
proof -
  have "set (map UUID (tracked g ds accs)) = set (map UUID accs @ added (emitted g ds accs))"
    by (simp only: map_UUID_tracked)
  then show ?thesis by (auto simp: set_added_emitted)
qed

lemma added_Http [simp]: "added (map Http sent) = []"
  by (induction sent) simp_all
lemma removed_Http [simp]: "removed (map Http sent) = []"
  by (induction sent) simp_all
lemma updated_Http [simp]: "updated (map Http sent) = []"
  by (induction sent) simp_all

lemma discoverDevices_closed:
  assumes "client p = Some c" and "updateDevices e c = (r, c1, sent)"
  shows "discoverDevices g e p =
     (Inr (),
      p\<lparr>client := Some c1,
        accessories := fst (fst (reconcile g (devices c1) (accessories p, api_accessories p))),
        api_accessories := snd (fst (reconcile g (devices c1) (accessories p, api_accessories p)))\<rparr>,
      [Log LogInfo [Str ''Start discovering devices'']] @
      (map Http sent @
        (case r of Inr u \<Rightarrow> [Log LogInfo [Str ''Device list updated'']]
                 | Inl err \<Rightarrow> [Log LogDebug [Err err]])) @
      snd (reconcile g (devices c1) (accessories p, api_accessories p)))"
  using assms by (simp add: discoverDevices_def split: prod.splits)

text \<open>
  Claim C3, amended. Let the host's list of registered accessories have no duplicates and
  hold exactly the UUIDs of the accessories the platform tracks, as it does when the
  platform has just been restored. Then after \<open>discoverDevices\<close> the host's list has no
  duplicates and holds exactly the UUIDs of the supported devices in the client's cache
  (the last successful poll); the accessories registered by the call are those now
  registered and not before, the ones unregistered are those registered before and not
  now, every accessory registered before and still registered was updated, and when the
  polled addresses are distinct exactly those were updated. For known \<open>{A, B}\<close> and a
  poll \<open>{B, C}\<close> this is added \<open>{C}\<close>, removed \<open>{A}\<close>, updated \<open>{B}\<close>.
\<close>

theorem discoverDevices_reconciles:
  assumes cl: "client p = Some c"
    and di: "distinct (api_accessories p)"
    and co: "set (api_accessories p) = UUID ` set (accessories p)"
    and run: "discoverDevices g e p = (r, p', fx)"
    and cl': "client p' = Some c'"
  shows "distinct (api_accessories p')
     \<and> set (api_accessories p') = key g ` {d \<in> set (devices c'). isAvailable d}
     \<and> set (added fx) = set (api_accessories p') - set (api_accessories p)
     \<and> set (removed fx) = set (api_accessories p) - set (api_accessories p')
     \<and> set (api_accessories p) \<inter> set (api_accessories p') \<subseteq> set (updated fx)
     \<and> set (updated fx) \<subseteq> set (api_accessories p')
     \<and> (distinct (map (key g) (filter isAvailable (devices c'))) \<longrightarrow>
          set (updated fx) = set (api_accessories p) \<inter> set (api_accessories p'))"
proof -
  obtain r1 c1 sent where up: "updateDevices e c = (r1, c1, sent)"
    by (cases "updateDevices e c") auto
  define av where "av = filter isAvailable (devices c1)"
  define D where "D = key g ` set av"
  define K where "K = UUID ` set (accessories p)"
  note closed = discoverDevices_closed [OF cl up, of g]
  from run closed cl' have c1: "c' = c1" by auto
  have host': "api_accessories p' =
      filter (kept (map (key g) av) (tracked g av (accessories p)))
        (api_accessories p @ added (emitted g av (accessories p)))"
    using run closed by (auto simp: reconcile_closed av_def)
  have fx: "added fx = added (emitted g av (accessories p))"
    "removed fx = filter (\<lambda>u. u \<notin> D) (map UUID (tracked g av (accessories p)))"
    "updated fx = updated (emitted g av (accessories p))"
    using run closed
    by (auto simp: reconcile_closed av_def D_def removed_emitted removed_dropped split: sum.splits)
  have A: "set (added (emitted g av (accessories p))) = D - K"
    by (simp add: set_added_emitted D_def K_def)
  have T: "UUID ` set (tracked g av (accessories p)) = K \<union> D"
    by (simp add: set_UUID_tracked D_def K_def)
  have keptD: "kept (map (key g) av) (tracked g av (accessories p)) u = (u \<in> D \<or> u \<notin> K)" for u
    using T by (auto simp: kept_def D_def)
  have sethost: "set (api_accessories p') = D"
    unfolding host' using A co by (auto simp: keptD K_def)
  have dist: "distinct (api_accessories p')"
    unfolding host' using di A co distinct_added_emitted [of g av "accessories p"]
    by (auto simp: K_def)
  have Dset: "D = key g ` {d \<in> set (devices c'). isAvailable d}"
    by (auto simp: D_def av_def c1)
  have rem: "set (removed fx) = K - D"
    unfolding fx using T by (auto simp: image_iff)
  have u1: "K \<inter> D \<subseteq> set (updated fx)"
    unfolding fx using updated_emitted_known [of g av "accessories p"] by (auto simp: D_def K_def)
  have u2: "set (updated fx) \<subseteq> D"
    unfolding fx using updated_emitted_subset [of g av "accessories p"] by (auto simp: D_def)
  have u3: "distinct (map (key g) av) \<Longrightarrow> set (updated fx) = K \<inter> D"
    unfolding fx using updated_emitted_distinct [of g av "accessories p"] by (auto simp: D_def K_def)
  show ?thesis
    using dist sethost Dset A rem u1 u2 u3 co fx(1)
    by (simp add: K_def av_def c1)
qed

lemma setContext_Cons:
  "setContext g d (a # as) =
     (if UUID a = key g d then a\<lparr>context_device := d\<rparr> # as else a # setContext g d as)"
  by (simp add: setContext_def)

lemma setContext_Nil [simp]: "setContext g d [] = []"
  by (simp add: setContext_def)

lemma setContext_same_key:
  "key g a = key g d \<Longrightarrow> setContext g a (setContext g d X) = setContext g a X"
  by (induction X) (simp_all add: setContext_Cons)

lemma setContext_commute:
  "key g a \<noteq> key g d \<Longrightarrow>
   setContext g a (setContext g d X) = setContext g d (setContext g a X)"
  by (induction X) (auto simp: setContext_Cons)

lemma setContext_append_known:
  "key g d \<in> UUID ` set X \<Longrightarrow> setContext g d (X @ Y) = setContext g d X @ Y"
  by (induction X) (auto simp: setContext_Cons)

lemma setContext_append_unknown:
  "key g d \<notin> UUID ` set X \<Longrightarrow> setContext g d (X @ Y) = X @ setContext g d Y"
  by (induction X) (auto simp: setContext_Cons)

lemma tracked_known:
  "key g ` set ds \<subseteq> UUID ` set X \<Longrightarrow> tracked g ds X = fold (setContext g) ds X"
  by (induction ds arbitrary: X) simp_all

lemma UUID_set_fold_setContext [simp]:
  "UUID ` set (fold (setContext g) ds X) = UUID ` set X"
  by (induction ds arbitrary: X) simp_all

lemma fold_setContext_absorb:
  "setContext g d (fold (setContext g) ds (setContext g d X)) =
   setContext g d (fold (setContext g) ds X)"
proof (induction ds arbitrary: X)
  case Nil
  show ?case by (simp add: setContext_same_key)
next
  case (Cons a ds)
  show ?case
  proof (cases "key g a = key g d")
    case True
    then show ?thesis by (simp add: setContext_same_key)
  next
    case False
    then show ?thesis
      using Cons.IH [of "setContext g a X"] by (simp add: setContext_commute)
  qed
qed

lemma fold_setContext_append:
  "key g ` set ds \<subseteq> UUID ` set X \<Longrightarrow>
   fold (setContext g) ds (X @ Y) = fold (setContext g) ds X @ Y"
  by (induction ds arbitrary: X) (simp_all add: setContext_append_known)

lemma tracked_append:
  "tracked g (xs @ ys) accs = tracked g ys (tracked g xs accs)"
  by (induction xs arbitrary: accs) simp_all

lemma setContext_fresh [simp]: "setContext g d [fresh g d] = [fresh g d]"
  by (simp add: setContext_Cons)

lemma tracked_fixed: "fold (setContext g) ds (tracked g ds X) = tracked g ds X"
proof (induction ds arbitrary: X rule: rev_induct)
  case Nil
  show ?case by simp
next
  case (snoc d ds)
  let ?Y = "tracked g ds X"
  have keys: "key g ` set ds \<subseteq> UUID ` set ?Y"
    by (simp add: set_UUID_tracked)
  have fixed: "fold (setContext g) ds ?Y = ?Y" by (rule snoc.IH)
  show ?case
  proof (cases "key g d \<in> UUID ` set ?Y")
    case True
    then have Z: "tracked g (ds @ [d]) X = setContext g d ?Y"
      by (simp add: tracked_append)
    have "fold (setContext g) (ds @ [d]) (setContext g d ?Y) =
          setContext g d (fold (setContext g) ds (setContext g d ?Y))"
      by simp
    also have "\<dots> = setContext g d (fold (setContext g) ds ?Y)"
      by (rule fold_setContext_absorb)
    also have "\<dots> = setContext g d ?Y" by (simp only: fixed)
    finally show ?thesis by (simp only: Z)
  next
    case False
    then have Z: "tracked g (ds @ [d]) X = ?Y @ [fresh g d]"
      by (simp add: tracked_append)
    have "fold (setContext g) (ds @ [d]) (?Y @ [fresh g d]) =
          setContext g d (fold (setContext g) ds (?Y @ [fresh g d]))"
      by simp
    also have "\<dots> = setContext g d (fold (setContext g) ds ?Y @ [fresh g d])"
      by (simp only: fold_setContext_append [OF keys])
    also have "\<dots> = setContext g d (?Y @ [fresh g d])" by (simp only: fixed)
    also have "\<dots> = ?Y @ [fresh g d]"
      using False by (simp add: setContext_append_unknown)
    finally show ?thesis by (simp only: Z)
  qed
qed

lemma tracked_idem: "tracked g ds (tracked g ds X) = tracked g ds X"
proof -
  have "key g ` set ds \<subseteq> UUID ` set (tracked g ds X)"
    by (simp add: set_UUID_tracked)
  then show ?thesis by (simp add: tracked_known tracked_fixed)
qed

lemma added_emitted_known:
  "key g ` set ds \<subseteq> UUID ` set X \<Longrightarrow> added (emitted g ds X) = []"
proof -
  assume "key g ` set ds \<subseteq> UUID ` set X"
  then have "set (added (emitted g ds X)) = {}"
    by (auto simp: set_added_emitted)
  then show ?thesis by simp
qed

lemma updateDevices_delivers:
  assumes "token_reply e = Inr a" and "devices_reply e = Inr body"
    and "devices_field body = DevicesArray ds"
  shows "devices (fst (snd (updateDevices e c))) = ds"
  using assms
  by (simp add: updateDevices_def refreshToken_def fetchDevices_def)

text \<open>
  Claim C6, amended. When both polls deliver the same well-formed device list, a second
  \<open>discoverDevices\<close> leaves the tracked accessories and the host's list of registered
  accessories exactly as the first run left them, and registers nothing.
\<close>

theorem discoverDevices_twice:
  assumes cl: "client p = Some c"
    and tok: "token_reply e1 = Inr a1" "token_reply e2 = Inr a2"
    and rep: "devices_reply e1 = Inr body" "devices_reply e2 = Inr body"
    and wf: "devices_field body = DevicesArray ds"
    and run1: "discoverDevices g e1 p = (r1, p1, fx1)"
    and run2: "discoverDevices g e2 p1 = (r2, p2, fx2)"
  shows "accessories p2 = accessories p1
     \<and> api_accessories p2 = api_accessories p1
     \<and> added fx2 = []"
proof -
  obtain q1 c1 s1 where up1: "updateDevices e1 c = (q1, c1, s1)"
    by (cases "updateDevices e1 c") auto
  have d1: "devices c1 = ds"
    using updateDevices_delivers [OF tok(1) rep(1) wf, of c] up1 by simp
  note closed1 = discoverDevices_closed [OF cl up1, of g]
  have cl1: "client p1 = Some c1" using run1 closed1 by auto
  obtain q2 c2 s2 where up2: "updateDevices e2 c1 = (q2, c2, s2)"
    by (cases "updateDevices e2 c1") auto
  have d2: "devices c2 = ds"
    using updateDevices_delivers [OF tok(2) rep(2) wf, of c1] up2 by simp
  note closed2 = discoverDevices_closed [OF cl1 up2, of g]
  define av where "av = filter isAvailable ds"
  define disc where "disc = map (key g) av"
  have a1: "accessories p1 = tracked g av (accessories p)"
    using run1 closed1 by (auto simp: reconcile_closed d1 av_def)
  have h1: "api_accessories p1 =
      filter (kept disc (accessories p1)) (api_accessories p @ added (emitted g av (accessories p)))"
    using run1 closed1 by (auto simp: reconcile_closed d1 av_def disc_def)
  have a2: "accessories p2 = tracked g av (accessories p1)"
    using run2 closed2 by (auto simp: reconcile_closed d2 av_def)
  have h2: "api_accessories p2 =
      filter (kept disc (accessories p2)) (api_accessories p1 @ added (emitted g av (accessories p1)))"
    using run2 closed2 by (auto simp: reconcile_closed d2 av_def disc_def)
  have f2: "added fx2 = added (emitted g av (accessories p1))"
    using run2 closed2 by (auto simp: reconcile_closed d2 av_def split: sum.splits)
  have known: "key g ` set av \<subseteq> UUID ` set (accessories p1)"
    by (simp add: a1 set_UUID_tracked)
  have none: "added (emitted g av (accessories p1)) = []"
    by (rule added_emitted_known [OF known])
  have same: "accessories p2 = accessories p1"
    by (simp add: a2 a1 tracked_idem)
  have "api_accessories p2 = filter (kept disc (accessories p1)) (api_accessories p1)"
    by (simp add: h2 none same)
  also have "\<dots> = api_accessories p1"
    by (subst (1 2) h1) simp
  finally show ?thesis using same f2 none by simp
qed

text \<open>
  Claim C5, amended. When the device update fails inside \<open>discoverDevices\<close>, the error
  is caught there and logged at debug level, and \<open>discoverDevices\<close> itself completes
  without raising; the client's cached device list is what it was; and the call does not
  stop but goes on to reconcile the accessories against that cached list. A periodic tick
  in which the device update fails leaves the cached device list and the accessories,
  tracked and registered, as they were.
\<close>

theorem discoverDevices_update_failure:
  assumes cl: "client p = Some c"
    and fail: "fst (updateDevices e c) = Inl err"
    and run: "discoverDevices g e p = (r, p', fx)"
    and tk: "tick e p = (rt, pt, fxt)"
  shows "r = Inr ()
     \<and> Log LogDebug [Err err] \<in> set fx
     \<and> map_option devices (client p') = Some (devices c)
     \<and> (accessories p', api_accessories p') =
         fst (reconcile g (devices c) (accessories p, api_accessories p))
     \<and> map_option devices (client pt) = Some (devices c)
     \<and> accessories pt = accessories p
     \<and> api_accessories pt = api_accessories p"
proof -
  obtain q c1 sent where up: "updateDevices e c = (q, c1, sent)"
    by (cases "updateDevices e c") auto
  have q: "q = Inl err" using fail up by simp
  have d: "devices c1 = devices c"
    using updateDevices_failed [OF fail] up by simp
  note closed = discoverDevices_closed [OF cl up, of g]
  have "tick e p = (q, p\<lparr>client := Some c1\<rparr>, map Http sent)"
    using cl up by (simp add: tick_def)
  with tk have pt: "pt = p\<lparr>client := Some c1\<rparr>" by simp
  show ?thesis
    using run closed by (auto simp: q d pt)
qed

section \<open>The sample installation evaluated\<close>

lemma gen_eq [simp]: "(gen a = gen b) = (a = b)"
  by (simp add: gen_def)

lemma air_monitor_simps [simp]:
  "mac (info (air_monitor m)) = m"
  "name (info (air_monitor m)) = m"
  "isAvailable (air_monitor m)"
  "key gen (air_monitor m) = gen m"
  by (simp_all add: air_monitor_def isAvailable_iff key_def)

lemma restored_simps [simp]:
  "UUID (restored m) = gen m"
  "displayName (restored m) = m"
  "context_device (restored m) = air_monitor m"
  "fresh gen (air_monitor m) = restored m"
  "(restored m)\<lparr>context_device := air_monitor m\<rparr> = restored m"
  by (simp_all add: restored_def fresh_def QingpingAirMonitorAccessory_def platformAccessory_def
      ensureService_def Let_def key_def split: option.splits)

lemma restore_eval:
  "restore [''A''] = \<lparr>config = cfg0, client = None, accessories = [restored ''A''],
      api_accessories = [gen ''A''], timer = None\<rparr>"
  "restore [''A'', ''B''] = \<lparr>config = cfg0, client = None, accessories = [restored ''A'', restored ''B''],
      api_accessories = [gen ''A'', gen ''B''], timer = None\<rparr>"
  by (simp_all add: restore_def configureAccessory_def restored_def air_monitor_def
      platformAccessory_def)

lemma updateDevices_poll_new:
  "updateDevices (poll ms) (new_Client ''key'' ''secret'') =
     (Inr (), online_client (map air_monitor ms),
      [PostToken ''key'' ''secret'', GetDevices 1002])"
  by (simp add: updateDevices_def refreshToken_def fetchDevices_def refresh_condition_def
      poll_def env_reply_def online_client_def new_Client_def)

lemma updateDevices_poll_online:
  "updateDevices (poll ms) (online_client ds) =
     (Inr (), online_client (map air_monitor ms),
      [PostToken ''key'' ''secret'', GetDevices 1002])"
  by (simp add: updateDevices_def refreshToken_def fetchDevices_def refresh_condition_def
      poll_def env_reply_def online_client_def new_Client_def fresh_access_def)

lemma updateDevices_down_new:
  "updateDevices (env_down t) (new_Client ''key'' ''secret'') =
     (Inl (HTTPError ''ECONNREFUSED''), new_Client ''key'' ''secret'',
      [PostToken ''key'' ''secret''])"
  by (simp add: updateDevices_def refreshToken_def refresh_condition_def
      env_down_def new_Client_def)

lemma updateDevices_down_online:
  "t < 7201001 \<Longrightarrow>
   updateDevices (env_down t) (online_client ds) =
     (Inl (HTTPError ''ECONNREFUSED''), online_client ds, [PostToken ''key'' ''secret''])"
  by (simp add: updateDevices_def refreshToken_def refresh_condition_def
      env_down_def online_client_def new_Client_def fresh_access_def)

lemma started_poll:
  "started (poll ms) [''A''] =
     running (online_client (map air_monitor ms)) [restored ''A''] [gen ''A''] (Some 2000)"
  "started (poll ms) [''A'', ''B''] =
     running (online_client (map air_monitor ms)) [restored ''A'', restored ''B'']
       [gen ''A'', gen ''B''] (Some 2000)"
  by (simp_all add: started_def initialize_def restore_eval running_def cfg0_def
      updateDevices_poll_new [unfolded new_Client_def] new_Client_def)

lemma started_down:
  "started (env_down t) [''A''] =
     \<lparr>config = cfg0, client = Some (new_Client ''key'' ''secret''),
      accessories = [restored ''A''], api_accessories = [gen ''A''], timer = None\<rparr>"
  by (simp add: started_def initialize_def restore_eval cfg0_def
      updateDevices_down_new [unfolded new_Client_def] new_Client_def)

lemma discoverDevices_poll:
  "discoverDevices gen (poll ms) (running (online_client ds) accs host t) =
     (Inr (),
      running (online_client (map air_monitor ms))
        (tracked gen (map air_monitor ms) accs)
        (filter (kept (map gen ms) (tracked gen (map air_monitor ms) accs))
           (host @ added (emitted gen (map air_monitor ms) accs)))
        t,
      [Log LogInfo [Str ''Start discovering devices''],
       Http (PostToken ''key'' ''secret''), Http (GetDevices 1002),
       Log LogInfo [Str ''Device list updated''],
       Log LogInfo [Str ''Available devices: '', Num (int (length ms))]]
      @ emitted gen (map air_monitor ms) accs
      @ dropped (map gen ms) (tracked gen (map air_monitor ms) accs))"
proof -
  have cl: "client (running (online_client ds) accs host t) = Some (online_client ds)"
    by (simp add: running_def)
  have av: "filter isAvailable (map air_monitor ms) = map air_monitor ms"
    by (induction ms) simp_all
  have dv: "devices (online_client (map air_monitor ms)) = map air_monitor ms"
    by (simp add: online_client_def)
  have km: "map (key gen) (map air_monitor ms) = map gen ms"
    by simp
  show ?thesis
    unfolding discoverDevices_closed [OF cl updateDevices_poll_online] reconcile_closed dv av km
    by (simp add: running_def)
qed


lemma first_run:
  "fst (snd (discoverDevices gen (poll [''B'', ''C'']) (started (poll []) [''A'', ''B'']))) =
     running (online_client (map air_monitor [''B'', ''C'']))
       [restored ''A'', restored ''B'', restored ''C''] [gen ''B'', gen ''C''] (Some 2000)"
  "added (snd (snd (discoverDevices gen (poll [''B'', ''C'']) (started (poll []) [''A'', ''B''])))) = [gen ''C'']"
  "removed (snd (snd (discoverDevices gen (poll [''B'', ''C'']) (started (poll []) [''A'', ''B''])))) = [gen ''A'']"
  "updated (snd (snd (discoverDevices gen (poll [''B'', ''C'']) (started (poll []) [''A'', ''B''])))) = [gen ''B'']"
  by (simp_all add: started_poll discoverDevices_poll setContext_Cons kept_def)

lemma second_run:
  "fst (snd (discoverDevices gen (poll [''A'', ''B'', ''C''])
     (running (online_client (map air_monitor [''B'', ''C'']))
       [restored ''A'', restored ''B'', restored ''C''] [gen ''B'', gen ''C''] (Some 2000)))) =
     running (online_client (map air_monitor [''A'', ''B'', ''C'']))
       [restored ''A'', restored ''B'', restored ''C''] [gen ''B'', gen ''C''] (Some 2000)"
  by (simp add: discoverDevices_poll setContext_Cons kept_def)

theorem discoverDevices_reconciles_witness:
  "set (api_accessories (started (poll []) [''A'', ''B''])) = {gen ''A'', gen ''B''}
   \<and> distinct (api_accessories (fst (snd (discoverDevices gen (poll [''B'', ''C'']) (started (poll []) [''A'', ''B''])))))
   \<and> set (api_accessories (fst (snd (discoverDevices gen (poll [''B'', ''C'']) (started (poll []) [''A'', ''B''])))))
       = {gen ''B'', gen ''C''}
   \<and> set (added (snd (snd (discoverDevices gen (poll [''B'', ''C'']) (started (poll []) [''A'', ''B''])))))
       = {gen ''C''}
   \<and> set (removed (snd (snd (discoverDevices gen (poll [''B'', ''C'']) (started (poll []) [''A'', ''B''])))))
       = {gen ''A''}
   \<and> set (updated (snd (snd (discoverDevices gen (poll [''B'', ''C'']) (started (poll []) [''A'', ''B''])))))
       = {gen ''B''}"
proof -
  let ?p = "started (poll []) [''A'', ''B'']"
  let ?run = "discoverDevices gen (poll [''B'', ''C'']) ?p"
  have cl: "client ?p = Some (online_client (map air_monitor []))"
    by (simp add: started_poll running_def)
  have di: "distinct (api_accessories ?p)"
    by (simp add: started_poll running_def)
  have co: "set (api_accessories ?p) = UUID ` set (accessories ?p)"
    by (simp add: started_poll running_def)
  have run: "?run = (fst ?run, fst (snd ?run), snd (snd ?run))"
    by simp
  have cl': "client (fst (snd ?run)) = Some (online_client (map air_monitor [''B'', ''C'']))"
    by (simp add: first_run running_def)
  have dk: "distinct (map (key gen) (filter isAvailable
              (devices (online_client (map air_monitor [''B'', ''C''])))))"
    by (simp add: online_client_def)
  have host': "api_accessories (fst (snd ?run)) = [gen ''B'', gen ''C'']"
    by (simp add: first_run running_def)
  have host: "set (api_accessories ?p) = {gen ''A'', gen ''B''}"
    by (simp add: started_poll running_def)
  note th = discoverDevices_reconciles [OF cl di co run cl']
  have d: "distinct (api_accessories (fst (snd ?run)))"
    by (rule th [THEN conjunct1])
  have a: "set (added (snd (snd ?run))) = {gen ''C''}"
    using th [THEN conjunct2, THEN conjunct2, THEN conjunct1]
    unfolding host host' by (simp add: insert_Diff_if)
  have r: "set (removed (snd (snd ?run))) = {gen ''A''}"
    using th [THEN conjunct2, THEN conjunct2, THEN conjunct2, THEN conjunct1]
    unfolding host host' by (simp add: insert_Diff_if)
  have u: "set (updated (snd (snd ?run))) = {gen ''B''}"
    using th [THEN conjunct2, THEN conjunct2, THEN conjunct2, THEN conjunct2, THEN conjunct2,
        THEN conjunct2, THEN mp, OF dk]
    unfolding host host' by simp
  show ?thesis
    using d a r u host host' by simp
qed

theorem discoverDevices_stale_accessory:
  "map UUID (accessories (fst (snd (discoverDevices gen (poll [''B'', ''C'']) (started (poll []) [''A'', ''B''])))))
     = [gen ''A'', gen ''B'', gen ''C'']
   \<and> api_accessories (fst (snd (discoverDevices gen (poll [''B'', ''C'']) (started (poll []) [''A'', ''B'']))))
       = [gen ''B'', gen ''C'']
   \<and> api_accessories (fst (snd (discoverDevices gen (poll [''A'', ''B'', ''C''])
         (fst (snd (discoverDevices gen (poll [''B'', ''C'']) (started (poll []) [''A'', ''B''])))))))
       = [gen ''B'', gen ''C'']
   \<and> map_option (\<lambda>c. map (key gen) (filter isAvailable (devices c)))
         (client (fst (snd (discoverDevices gen (poll [''A'', ''B'', ''C''])
            (fst (snd (discoverDevices gen (poll [''B'', ''C'']) (started (poll []) [''A'', ''B'']))))))))
       = Some [gen ''A'', gen ''B'', gen ''C'']
   \<and> gen ''A'' \<notin> set [gen ''B'', gen ''C'']"
  unfolding first_run second_run
  by (simp add: running_def online_client_def)

theorem discoverDevices_update_failure_witness:
  "fst (updateDevices (env_down 5) (online_client (map air_monitor [''A'', ''B'']))) =
     Inl (HTTPError ''ECONNREFUSED'')
   \<and> fst (discoverDevices gen (env_down 5) (started (poll [''A'', ''B'']) [''A''])) = Inr ()
   \<and> Log LogDebug [Err (HTTPError ''ECONNREFUSED'')] \<in>
        set (snd (snd (discoverDevices gen (env_down 5) (started (poll [''A'', ''B'']) [''A'']))))
   \<and> map_option devices
        (client (fst (snd (discoverDevices gen (env_down 5) (started (poll [''A'', ''B'']) [''A''])))))
       = Some (map air_monitor [''A'', ''B''])
   \<and> api_accessories (started (poll [''A'', ''B'']) [''A'']) = [gen ''A'']
   \<and> api_accessories (fst (snd (discoverDevices gen (env_down 5) (started (poll [''A'', ''B'']) [''A'']))))
       = [gen ''A'', gen ''B'']
   \<and> map_option devices (client (fst (snd (tick (env_down 5) (started (poll [''A'', ''B'']) [''A'']))))) =
       Some (map air_monitor [''A'', ''B''])
   \<and> api_accessories (fst (snd (tick (env_down 5) (started (poll [''A'', ''B'']) [''A''])))) = [gen ''A'']"
proof -
  let ?c = "online_client (map air_monitor [''A'', ''B''])"
  let ?tk = "tick (env_down 5) (started (poll [''A'', ''B'']) [''A''])"
  have tk: "?tk = (fst ?tk, fst (snd ?tk), snd (snd ?tk))"
    by simp
  let ?p = "started (poll [''A'', ''B'']) [''A'']"
  let ?run = "discoverDevices gen (env_down 5) ?p"
  have cl: "client ?p = Some ?c"
    by (simp add: started_poll running_def)
  have fail: "fst (updateDevices (env_down 5) ?c) = Inl (HTTPError ''ECONNREFUSED'')"
    by (simp add: updateDevices_down_online)
  have run: "?run = (fst ?run, fst (snd ?run), snd (snd ?run))"
    by simp
  have dv: "devices ?c = map air_monitor [''A'', ''B'']"
    by (simp add: online_client_def)
  have rec: "fst (reconcile gen (devices ?c) (accessories ?p, api_accessories ?p)) =
      ([restored ''A'', restored ''B''], [gen ''A'', gen ''B''])"
    by (simp add: online_client_def reconcile_closed started_poll running_def setContext_Cons
        kept_def)
  have host: "api_accessories ?p = [gen ''A'']"
    by (simp add: started_poll running_def)
  from discoverDevices_update_failure [OF cl fail run tk] fail dv rec host
  show ?thesis by simp
qed

theorem discoverDevices_failure_unregisters:
  "client (started (env_down 0) [''A'']) = Some (new_Client ''key'' ''secret'')
   \<and> fst (updateDevices (env_down 5) (new_Client ''key'' ''secret'')) = Inl (HTTPError ''ECONNREFUSED'')
   \<and> api_accessories (started (env_down 0) [''A'']) = [gen ''A'']
   \<and> api_accessories (fst (snd (discoverDevices gen (env_down 5) (started (env_down 0) [''A''])))) = []
   \<and> removed (snd (snd (discoverDevices gen (env_down 5) (started (env_down 0) [''A''])))) = [gen ''A'']
   \<and> timer (started (poll []) [''A'']) = Some 2000
   \<and> fst (tick (env_down 5) (started (poll []) [''A''])) = Inl (HTTPError ''ECONNREFUSED'')
   \<and> snd (snd (tick (env_down 5) (started (poll []) [''A'']))) = [Http (PostToken ''key'' ''secret'')]"
proof -
  let ?p = "started (env_down 0) [''A'']"
  have cl: "client ?p = Some (new_Client ''key'' ''secret'')"
    by (simp add: started_down)
  have dv: "devices (new_Client ''key'' ''secret'') = []"
    by (simp add: new_Client_def)
  have sync: "client ?p = Some (new_Client ''key'' ''secret'')
     \<and> fst (updateDevices (env_down 5) (new_Client ''key'' ''secret'')) = Inl (HTTPError ''ECONNREFUSED'')
     \<and> api_accessories ?p = [gen ''A'']
     \<and> api_accessories (fst (snd (discoverDevices gen (env_down 5) ?p))) = []
     \<and> removed (snd (snd (discoverDevices gen (env_down 5) ?p))) = [gen ''A'']"
    unfolding discoverDevices_closed [OF cl updateDevices_down_new] reconcile_closed dv
    by (simp add: started_down updateDevices_down_new kept_def)
  have ticks: "timer (started (poll []) [''A'']) = Some 2000
     \<and> fst (tick (env_down 5) (started (poll []) [''A''])) = Inl (HTTPError ''ECONNREFUSED'')
     \<and> snd (snd (tick (env_down 5) (started (poll []) [''A'']))) = [Http (PostToken ''key'' ''secret'')]"
    by (simp add: tick_def started_poll running_def updateDevices_down_online)
  from sync ticks show ?thesis by simp
qed

theorem discoverDevices_twice_witness:
  "accessories (fst (snd (discoverDevices gen (poll [''B''])
      (fst (snd (discoverDevices gen (poll [''B'']) (started (poll []) [''A''])))))))
     = accessories (fst (snd (discoverDevices gen (poll [''B'']) (started (poll []) [''A'']))))
   \<and> api_accessories (fst (snd (discoverDevices gen (poll [''B''])
      (fst (snd (discoverDevices gen (poll [''B'']) (started (poll []) [''A''])))))))
     = [gen ''B'']
   \<and> api_accessories (fst (snd (discoverDevices gen (poll [''B'']) (started (poll []) [''A'']))))
     = [gen ''B'']
   \<and> added (snd (snd (discoverDevices gen (poll [''B''])
      (fst (snd (discoverDevices gen (poll [''B'']) (started (poll []) [''A''])))))))
     = []"
proof -
  let ?p = "started (poll []) [''A'']"
  let ?run1 = "discoverDevices gen (poll [''B'']) ?p"
  let ?run2 = "discoverDevices gen (poll [''B'']) (fst (snd ?run1))"
  have cl: "client ?p = Some (online_client (map air_monitor []))"
    by (simp add: started_poll running_def)
  have tok: "token_reply (poll [''B'']) = Inr fresh_access"
    by (simp add: poll_def env_reply_def)
  have rep: "devices_reply (poll [''B'']) =
      Inr \<lparr>total_devices = 1, devices_field = DevicesArray (map air_monitor [''B''])\<rparr>"
    by (simp add: poll_def env_reply_def)
  have wf: "devices_field \<lparr>total_devices = 1, devices_field = DevicesArray (map air_monitor [''B''])\<rparr>
      = DevicesArray (map air_monitor [''B''])"
    by simp
  have run1: "?run1 = (fst ?run1, fst (snd ?run1), snd (snd ?run1))"
    by simp
  have run2: "?run2 = (fst ?run2, fst (snd ?run2), snd (snd ?run2))"
    by simp
  have host1: "api_accessories (fst (snd ?run1)) = [gen ''B'']"
    unfolding started_poll discoverDevices_poll
    by (simp add: running_def kept_def)
  from discoverDevices_twice [OF cl tok tok rep rep wf run1 run2] host1
  show ?thesis by simp
qed

theorem discoverDevices_twice_unregisters_again:
  "removed (snd (snd (discoverDevices gen (poll [''B'']) (started (poll []) [''A''])))) = [gen ''A'']
   \<and> removed (snd (snd (discoverDevices gen (poll [''B''])
        (fst (snd (discoverDevices gen (poll [''B'']) (started (poll []) [''A''])))))))
      = [gen ''A'']
   \<and> removed (snd (snd (discoverDevices gen (poll [''B''])
        (fst (snd (discoverDevices gen (poll [''B'']) (started (poll []) [''A''])))))))
      \<noteq> []"
  by (simp add: started_poll discoverDevices_poll setContext_Cons kept_def)

end
